theory Spec2Isabelle
  imports Complex_Main "HOL-Library.Log_Nat" "HOL-Library.Sublist"
begin

section \<open>JavaScript numbers\<close>

text \<open>
  A JavaScript number is an IEEE 754 double. The finite ones are modelled by their exact
  rational value, the others by three constants. The two zeros are identified: the code
  below never divides by a computed zero other than the (positive) length of an array, and
  both zeros print as \<^verbatim>\<open>0\<close> and are \<^verbatim>\<open>=== 0\<close>.
\<close>

datatype jsnum = Num rat | PInf | NInf | NaN

text \<open>Rounding a real to an integer, ties to the even neighbour (the rounding of a mantissa).\<close>

definition round_ties_even :: "rat \<Rightarrow> int" where
  "round_ties_even x =
     (let f = \<lfloor>x\<rfloor>; d = x - of_int f
      in if d < 1 / 2 then f
         else if 1 / 2 < d then f + 1
         else if even f then f else f + 1)"

text \<open>The binary exponent of a positive rational: \<open>2 powi e \<le> a < 2 powi (e + 1)\<close>.\<close>

definition ilog2 :: "rat \<Rightarrow> int" where
  "ilog2 a =
     (let (p, q) = quotient_of a;
          k = int (floorlog 2 (nat p)) - int (floorlog 2 (nat q))
      in if 2 powi k \<le> a then k else k - 1)"

text \<open>
  \<open>fl q\<close> is the double nearest to \<open>q\<close> (round to nearest, ties to even): 53 bits of
  mantissa, exponents from \<open>-1022\<close> (below which the spacing stays \<open>2 powi (-1074)\<close>), and
  overflow to an infinity from \<open>2 ^ 1024\<close> on. Every arithmetic operation of JavaScript
  returns \<open>fl\<close> of the exact result.
\<close>

definition fl :: "rat \<Rightarrow> jsnum" where
  "fl q =
     (if q = 0 then Num 0
      else let a = \<bar>q\<bar>;
               u = 2 powi (max (ilog2 a) (- 1022) - 52);
               r = of_int (round_ties_even (a / u)) * u
           in if 2 ^ 1024 \<le> r then (if 0 < q then PInf else NInf)
              else Num (sgn q * r))"

definition inf_sign :: "rat \<Rightarrow> jsnum" where
  "inf_sign s = (if s = 0 then NaN else if 0 < s then PInf else NInf)"

fun sign_of :: "jsnum \<Rightarrow> rat" where
  "sign_of (Num a) = sgn a"
| "sign_of PInf = 1"
| "sign_of NInf = - 1"
| "sign_of NaN = 0"

text \<open>\<^verbatim>\<open>x * y\<close>\<close>

fun js_mul :: "jsnum \<Rightarrow> jsnum \<Rightarrow> jsnum" where
  "js_mul (Num a) (Num b) = fl (a * b)"
| "js_mul NaN y = NaN"
| "js_mul x NaN = NaN"
| "js_mul x y = inf_sign (sign_of x * sign_of y)"

text \<open>\<^verbatim>\<open>x / y\<close>; a zero divisor is the positive zero.\<close>

fun js_div :: "jsnum \<Rightarrow> jsnum \<Rightarrow> jsnum" where
  "js_div (Num a) (Num b) = (if b = 0 then inf_sign a else fl (a / b))"
| "js_div NaN y = NaN"
| "js_div x NaN = NaN"
| "js_div (Num a) y = Num 0"
| "js_div x (Num b) = inf_sign (sign_of x * (if b = 0 then 1 else sgn b))"
| "js_div x y = NaN"

text \<open>\<^verbatim>\<open>Math.floor(x)\<close>\<close>

fun js_floor :: "jsnum \<Rightarrow> jsnum" where
  "js_floor (Num a) = Num (of_int \<lfloor>a\<rfloor>)"
| "js_floor x = x"

text \<open>\<^verbatim>\<open>Math.round(x)\<close>: the integer nearest to \<open>x\<close>, a tie going towards \<open>+\<infinity>\<close>.\<close>

fun js_round :: "jsnum \<Rightarrow> jsnum" where
  "js_round (Num a) = Num (of_int \<lfloor>a + 1 / 2\<rfloor>)"
| "js_round x = x"

text \<open>\<^verbatim>\<open>x % y\<close>: the remainder of the division truncated towards zero; it is exact.\<close>

definition trunc :: "rat \<Rightarrow> int" where
  "trunc x = (if 0 \<le> x then \<lfloor>x\<rfloor> else \<lceil>x\<rceil>)"

fun js_rem :: "jsnum \<Rightarrow> jsnum \<Rightarrow> jsnum" where
  "js_rem (Num a) (Num b) = (if b = 0 then NaN else Num (a - b * of_int (trunc (a / b))))"
| "js_rem NaN y = NaN"
| "js_rem x NaN = NaN"
| "js_rem (Num a) y = Num a"
| "js_rem x y = NaN"

text \<open>\<^verbatim>\<open>x === 0\<close>\<close>

fun js_is_zero :: "jsnum \<Rightarrow> bool" where
  "js_is_zero (Num a) = (a = 0)"
| "js_is_zero x = False"

text \<open>\<^verbatim>\<open>x || 0\<close> on a number: \<^verbatim>\<open>NaN\<close> and zero are falsy.\<close>

fun js_or_zero :: "jsnum \<Rightarrow> jsnum" where
  "js_or_zero NaN = Num 0"
| "js_or_zero x = x"

subsection \<open>Numbers as text\<close>

definition digit_char :: "nat \<Rightarrow> char" where
  "digit_char d = ''0123456789'' ! d"

text \<open>The decimal digits of a natural number, the most significant first.\<close>

fun digits_of :: "nat \<Rightarrow> string" where
  "digits_of n = (if 10 \<le> n then digits_of (n div 10) else []) @ [digit_char (n mod 10)]"

declare digits_of.simps [simp del]

definition int_text :: "int \<Rightarrow> string" where
  "int_text i = (if 0 \<le> i then digits_of (nat i) else CHR ''-'' # digits_of (nat (- i)))"

text \<open>
  \<^verbatim>\<open>String(x)\<close>, as a template literal applies it. It is used on integer-valued numbers
  only, and it is exact for those below \<open>2 ^ 53\<close> in magnitude, which JavaScript prints in
  decimal digits. From \<open>2 ^ 53\<close> on JavaScript prints the shortest digits that read back as
  the same double, and from \<open>10 ^ 21\<close> on exponent notation; the model prints the digits of
  the integer instead, so a property that reads the digits is stated below \<open>2 ^ 53\<close>. At
  every magnitude the text holds no markup character.
\<close>

fun js_to_string :: "jsnum \<Rightarrow> string" where
  "js_to_string (Num a) = int_text \<lfloor>a\<rfloor>"
| "js_to_string PInf = ''Infinity''"
| "js_to_string NInf = ''-Infinity''"
| "js_to_string NaN = ''NaN''"

section \<open>The document renderer (qbxml.js)\<close>

text \<open>
  \<^verbatim>\<open>new Date(entry.ClockIn)\<close> is either the invalid date or a moment whose local calendar
  date is a year, a month index from 0 and a day of the month.
\<close>

datatype jsdate = InvalidDate | LocalDate int int int

fun getFullYear :: "jsdate \<Rightarrow> jsnum" where
  "getFullYear InvalidDate = NaN"
| "getFullYear (LocalDate y m d) = Num (of_int y)"

fun getMonth :: "jsdate \<Rightarrow> jsnum" where
  "getMonth InvalidDate = NaN"
| "getMonth (LocalDate y m d) = Num (of_int m)"

fun getDate :: "jsdate \<Rightarrow> jsnum" where
  "getDate InvalidDate = NaN"
| "getDate (LocalDate y m d) = Num (of_int d)"

text \<open>\<^verbatim>\<open>x + 1\<close> on a month index.\<close>

fun js_succ :: "jsnum \<Rightarrow> jsnum" where
  "js_succ (Num a) = Num (a + 1)"
| "js_succ x = x"

text \<open>\<^verbatim>\<open>s.padStart(2, '0')\<close>\<close>

definition padStart2 :: "string \<Rightarrow> string" where
  "padStart2 s = replicate (2 - length s) (CHR ''0'') @ s"

definition formatDate :: "jsdate \<Rightarrow> string" where
  "formatDate date =
     (let year = getFullYear date;
          month = padStart2 (js_to_string (js_succ (getMonth date)));
          day = padStart2 (js_to_string (getDate date))
      in js_to_string year @ ''-'' @ month @ ''-'' @ day)"

definition formatDuration :: "jsnum \<Rightarrow> string" where
  "formatDuration hours =
     (let totalMinutes = js_round (js_mul hours (Num 60));
          h = js_floor (js_div totalMinutes (Num 60));
          m = js_rem totalMinutes (Num 60)
      in if js_is_zero m then ''PT'' @ js_to_string h @ ''H''
         else ''PT'' @ js_to_string h @ ''H'' @ js_to_string m @ ''M'')"

text \<open>\<^verbatim>\<open>str.replace(/c/g, r)\<close> for a single character \<open>c\<close>.\<close>

definition replace_all :: "char \<Rightarrow> string \<Rightarrow> string \<Rightarrow> string" where
  "replace_all c r str = concat (map (\<lambda>x. if x = c then r else [x]) str)"

definition escapeXml :: "string \<Rightarrow> string" where
  \<open>escapeXml str =
     (if str = [] then []
      else replace_all (CHR 0x27) ''&apos;''
            (replace_all (CHR 0x22) ''&quot;''
              (replace_all (CHR ''>'') ''&gt;''
                (replace_all (CHR ''<'') ''&lt;''
                  (replace_all (CHR ''&'') ''&amp;'' str)))))\<close>

text \<open>\<^verbatim>\<open>parts.join(sep)\<close>\<close>

fun js_join :: "string \<Rightarrow> string list \<Rightarrow> string" where
  "js_join sep [] = []"
| "js_join sep [x] = x"
| "js_join sep (x # y # ys) = x @ sep @ js_join sep (y # ys)"

text \<open>
  One pending clock entry. The text cells are strings, the empty string standing for an
  empty cell (the fetch stores \<^verbatim>\<open>row[j] || ''\<close>); \<open>ClockIn\<close> is the date that
  \<^verbatim>\<open>new Date(entry.ClockIn)\<close> builds and \<open>TotalHours\<close> the number that
  \<^verbatim>\<open>parseFloat(entry.TotalHours)\<close> reads.
\<close>

record entry =
  ID :: string
  EmployeeName :: string
  ClockIn :: jsdate
  RequiresTicket :: string
  CustomerName :: string
  JobName :: string
  Notes :: string
  TotalHours :: jsnum

text \<open>\<^verbatim>\<open>s || d\<close> on a string: the empty string is falsy.\<close>

definition str_or :: "string \<Rightarrow> string \<Rightarrow> string" where
  "str_or s d = (if s = [] then d else s)"

definition note_parts :: "entry \<Rightarrow> string list" where
  "note_parts e =
     (if CustomerName e \<noteq> [] \<and> CustomerName e \<noteq> ''Shop''
      then [''Customer: '' @ CustomerName e] else [])
     @ (if JobName e \<noteq> [] then [''Job: '' @ JobName e] else [])
     @ (if Notes e \<noteq> [] then [''Notes: '' @ Notes e] else [])"

definition is_billable :: "entry \<Rightarrow> bool" where
  "is_billable e \<longleftrightarrow>
     CustomerName e \<noteq> [] \<and> CustomerName e \<noteq> ''Shop'' \<and> RequiresTicket e = ''TRUE''"

definition xml_head :: "string \<Rightarrow> string \<Rightarrow> string \<Rightarrow> string" where
  \<open>xml_head txnDate employeeName duration =
     ''<?xml version="1.0" encoding="utf-8"?>\<newline>'' @
     ''<?qbxml version="13.0"?>\<newline>'' @
     ''<QBXML>\<newline>'' @
     ''  <QBXMLMsgsRq onError="stopOnError">\<newline>'' @
     ''    <TimeTrackingAddRq>\<newline>'' @
     ''      <TimeTrackingAdd>\<newline>'' @
     ''        <TxnDate>'' @ txnDate @ ''</TxnDate>\<newline>'' @
     ''        <EntityRef>\<newline>'' @
     ''          <FullName>'' @ employeeName @ ''</FullName>\<newline>'' @
     ''        </EntityRef>\<newline>'' @
     ''        <Duration>'' @ duration @ ''</Duration>''\<close>

definition xml_billable :: "string \<Rightarrow> string" where
  \<open>xml_billable customer =
     ''\<newline>        <CustomerRef>\<newline>'' @
     ''          <FullName>'' @ customer @ ''</FullName>\<newline>'' @
     ''        </CustomerRef>\<newline>'' @
     ''        <BillableStatus>Billable</BillableStatus>''\<close>

definition xml_not_billable :: string where
  \<open>xml_not_billable = ''\<newline>        <BillableStatus>NotBillable</BillableStatus>''\<close>

definition xml_notes :: "string \<Rightarrow> string" where
  \<open>xml_notes notesText = ''\<newline>        <Notes>'' @ notesText @ ''</Notes>''\<close>

definition xml_tail :: string where
  \<open>xml_tail =
     ''\<newline>      </TimeTrackingAdd>\<newline>'' @
     ''    </TimeTrackingAddRq>\<newline>'' @
     ''  </QBXMLMsgsRq>\<newline>'' @
     ''</QBXML>''\<close>

definition buildTimeTrackingAddXML :: "entry \<Rightarrow> string" where
  "buildTimeTrackingAddXML e =
     (let txnDate = formatDate (ClockIn e);
          totalHours = js_or_zero (TotalHours e);
          duration = formatDuration totalHours;
          employeeName = escapeXml (str_or (EmployeeName e) ''Unknown'');
          notesText = escapeXml (js_join '' | '' (note_parts e));
          qbxml = xml_head txnDate employeeName duration;
          qbxml = qbxml @ (if is_billable e then xml_billable (escapeXml (CustomerName e))
                           else xml_not_billable);
          qbxml = qbxml @ (if notesText \<noteq> [] then xml_notes notesText else [])
      in qbxml @ xml_tail)"

section \<open>The protocol dispatcher (index.js)\<close>

text \<open>
  The record store is outside the program. Its two operations are parameters that act on
  a state \<open>'w\<close> of the outside world: \<open>getQBSyncPendingEntries\<close> returns the pending
  entries or throws an error with a message (\<open>Inl\<close>), \<open>markEntriesQBSynced\<close> returns
  normally (\<open>None\<close>) or throws (\<open>Some\<close> of the message). Every call that the dispatcher
  makes is appended to a trace, which is not part of the program: it only makes the calls
  countable.
\<close>

type_synonym 'w fetch_op = "'w \<Rightarrow> (string + entry list) \<times> 'w"
type_synonym 'w mark_op = "string list \<Rightarrow> 'w \<Rightarrow> string option \<times> 'w"

datatype store_call = FetchPending | MarkSynced "string list"

text \<open>
  The value of the session table. \<open>lastError\<close> is a string or \<^verbatim>\<open>undefined\<close> (\<open>None\<close>):
  the status message of a response that carries none is \<^verbatim>\<open>undefined\<close>.
\<close>

record session =
  authenticated :: bool
  pendingEntries :: "entry list"
  currentIndex :: int
  lastError :: "string option"

record config =
  username :: string
  password :: string

text \<open>\<open>sessions\<close> is the module's \<^verbatim>\<open>Map\<close> from ticket to session.\<close>

record 'w state =
  sessions :: "string \<rightharpoonup> session"
  world :: 'w
  trace :: "store_call list"

text \<open>
  A handler runs from its first line to its last without another handler running in
  between: the interleaving of two requests at an \<^verbatim>\<open>await\<close> is not modelled.
\<close>

text \<open>\<^verbatim>\<open>params.x || ''\<close>: a missing parameter reads as the empty string.\<close>

definition or_empty :: "string option \<Rightarrow> string" where
  "or_empty p = (case p of None \<Rightarrow> [] | Some s \<Rightarrow> s)"

text \<open>\<^verbatim>\<open>xs[i]\<close>: \<^verbatim>\<open>undefined\<close> (\<open>None\<close>) outside the array.\<close>

definition js_index :: "'a list \<Rightarrow> int \<Rightarrow> 'a option" where
  "js_index xs i = (if 0 \<le> i \<and> i < int (length xs) then Some (xs ! nat i) else None)"

text \<open>The message of the \<^verbatim>\<open>TypeError\<close> that reading \<^verbatim>\<open>entry.ID\<close> of \<^verbatim>\<open>undefined\<close> throws.\<close>

definition undefined_entry_message :: string where
  \<open>undefined_entry_message =
     ''Cannot read properties of undefined (reading '' @ [CHR 0x27] @ ''ID'' @ [CHR 0x27] @ '')''\<close>

definition put_session :: "string \<Rightarrow> session \<Rightarrow> 'w state \<Rightarrow> 'w state" where
  "put_session ticket s st = st\<lparr>sessions := (sessions st)(ticket \<mapsto> s)\<rparr>"

definition call_store :: "store_call \<Rightarrow> 'w \<Rightarrow> 'w state \<Rightarrow> 'w state" where
  "call_store c w st = st\<lparr>world := w, trace := trace st @ [c]\<rparr>"

subsection \<open>authenticate\<close>

text \<open>
  \<open>new_ticket\<close> is the string that the handler builds from the clock and the random
  generator. The result is the pair of strings of \<^verbatim>\<open>authenticateResult\<close>.
\<close>

definition handleAuthenticate ::
  "config \<Rightarrow> string \<Rightarrow> string option \<Rightarrow> string option \<Rightarrow> 'w state
     \<Rightarrow> (string \<times> string) \<times> 'w state" where
  "handleAuthenticate cfg new_ticket strUserName strPassword st =
     (let user = or_empty strUserName; pass = or_empty strPassword
      in if user = username cfg \<and> pass = password cfg
         then ((new_ticket, []),
               put_session new_ticket
                 \<lparr>authenticated = True, pendingEntries = [], currentIndex = 0,
                  lastError = Some []\<rparr> st)
         else (([], ''nvu''), st))"

subsection \<open>sendRequestXML\<close>

text \<open>The part of the handler after the fetch: the session \<open>s\<close> is the one of the ticket.\<close>

definition next_request :: "string \<Rightarrow> session \<Rightarrow> 'w state \<Rightarrow> string \<times> 'w state" where
  "next_request ticket s st =
     (if int (length (pendingEntries s)) \<le> currentIndex s then ([], put_session ticket s st)
      else case js_index (pendingEntries s) (currentIndex s) of
             None \<Rightarrow> ([], put_session ticket (s\<lparr>lastError := Some undefined_entry_message\<rparr>) st)
           | Some e \<Rightarrow> (buildTimeTrackingAddXML e, put_session ticket s st))"

definition handleSendRequestXML ::
  "'w fetch_op \<Rightarrow> string option \<Rightarrow> 'w state \<Rightarrow> string \<times> 'w state" where
  "handleSendRequestXML fetch ticket_param st =
     (let ticket = or_empty ticket_param
      in case sessions st ticket of
           None \<Rightarrow> ([], st)
         | Some s \<Rightarrow>
             if \<not> authenticated s then ([], st)
             else if length (pendingEntries s) = 0 \<and> currentIndex s = 0
             then (case fetch (world st) of
                     (Inl msg, w) \<Rightarrow>
                       ([], put_session ticket (s\<lparr>lastError := Some msg\<rparr>)
                              (call_store FetchPending w st))
                   | (Inr es, w) \<Rightarrow>
                       next_request ticket (s\<lparr>pendingEntries := es\<rparr>)
                         (call_store FetchPending w st))
             else next_request ticket s st)"

subsection \<open>receiveResponseXML\<close>

text \<open>
  What the handler sees of the response document once \<^verbatim>\<open>parseStringPromise\<close> has run:
  \<^item> \<open>Unparsable msg\<close>: the parser rejects the document, or returns nothing so that reading
    \<^verbatim>\<open>parsed.QBXML\<close> throws; \<open>msg\<close> is the error's message;
  \<^item> \<open>NoAddRs\<close>: the document parses and \<^verbatim>\<open>QBXML?.QBXMLMsgsRs?.TimeTrackingAddRs\<close> is falsy;
  \<^item> \<open>AddRsNoAttrs msg\<close>: the element is there without attributes, so that reading
    \<^verbatim>\<open>timeTrackingRs.$.statusCode\<close> throws a \<^verbatim>\<open>TypeError\<close> with message \<open>msg\<close>;
  \<^item> \<open>AddRs code message\<close>: the element with its \<^verbatim>\<open>statusCode\<close> and \<^verbatim>\<open>statusMessage\<close>
    attributes, each a string or absent.
\<close>

datatype qb_response =
    Unparsable string
  | NoAddRs
  | AddRsNoAttrs string
  | AddRs "string option" "string option"

text \<open>\<^verbatim>\<open>Math.floor((currentIndex / pendingEntries.length) * 100)\<close>\<close>

definition progress :: "int \<Rightarrow> nat \<Rightarrow> jsnum" where
  "progress i n = js_floor (js_mul (js_div (Num (of_int i)) (Num (of_nat n))) (Num 100))"

text \<open>The end of the \<^verbatim>\<open>try\<close> block: move to the next entry and report the progress.\<close>

definition advance :: "string \<Rightarrow> session \<Rightarrow> 'w state \<Rightarrow> jsnum \<times> 'w state" where
  "advance ticket s st =
     (let s' = s\<lparr>currentIndex := currentIndex s + 1\<rparr>
      in (progress (currentIndex s') (length (pendingEntries s')), put_session ticket s' st))"

text \<open>The \<^verbatim>\<open>catch\<close> block.\<close>

definition receive_failed :: "string \<Rightarrow> string \<Rightarrow> session \<Rightarrow> 'w state \<Rightarrow> jsnum \<times> 'w state" where
  "receive_failed msg ticket s st =
     (Num (- 1),
      put_session ticket (s\<lparr>lastError := Some msg, currentIndex := currentIndex s + 1\<rparr>) st)"

definition handleReceiveResponseXML ::
  "'w mark_op \<Rightarrow> string option \<Rightarrow> qb_response \<Rightarrow> 'w state \<Rightarrow> jsnum \<times> 'w state" where
  "handleReceiveResponseXML mark ticket_param response st =
     (let ticket = or_empty ticket_param
      in case sessions st ticket of
           None \<Rightarrow> (Num (- 1), st)
         | Some s \<Rightarrow>
            (case response of
               Unparsable msg \<Rightarrow> receive_failed msg ticket s st
             | NoAddRs \<Rightarrow> advance ticket s st
             | AddRsNoAttrs msg \<Rightarrow> receive_failed msg ticket s st
             | AddRs statusCode statusMessage \<Rightarrow>
                 if statusCode = Some ''0''
                 then (case js_index (pendingEntries s) (currentIndex s) of
                         None \<Rightarrow> receive_failed undefined_entry_message ticket s st
                       | Some e \<Rightarrow>
                          (case mark [ID e] (world st) of
                             (Some msg, w) \<Rightarrow>
                               receive_failed msg ticket s (call_store (MarkSynced [ID e]) w st)
                           | (None, w) \<Rightarrow>
                               advance ticket s (call_store (MarkSynced [ID e]) w st)))
                 else advance ticket (s\<lparr>lastError := statusMessage\<rparr>) st))"

subsection \<open>connectionError, getLastError, closeConnection\<close>

definition handleConnectionError ::
  "string option \<Rightarrow> string option \<Rightarrow> 'w state \<Rightarrow> string \<times> 'w state" where
  "handleConnectionError ticket_param message_param st =
     (let ticket = or_empty ticket_param; message = or_empty message_param
      in (''done'',
          case sessions st ticket of
            None \<Rightarrow> st
          | Some s \<Rightarrow> put_session ticket (s\<lparr>lastError := Some message\<rparr>) st))"

text \<open>\<^verbatim>\<open>session?.lastError || ''\<close>\<close>

definition handleGetLastError :: "string option \<Rightarrow> 'w state \<Rightarrow> string \<times> 'w state" where
  "handleGetLastError ticket_param st =
     (case sessions st (or_empty ticket_param) of
        None \<Rightarrow> ([], st)
      | Some s \<Rightarrow> (or_empty (lastError s), st))"

definition handleCloseConnection :: "string option \<Rightarrow> 'w state \<Rightarrow> string \<times> 'w state" where
  "handleCloseConnection ticket_param st =
     (''OK'', st\<lparr>sessions := (sessions st)(or_empty ticket_param := None)\<rparr>)"

subsection \<open>Routing\<close>

text \<open>
  A request, as \<^verbatim>\<open>handleSOAPRequest\<close> routes it, with what the handler draws from outside
  the request: the ticket that \<^verbatim>\<open>authenticate\<close> generates.
\<close>

datatype request =
    ServerVersion
  | ClientVersion "string option"
  | Authenticate string "string option" "string option"
  | SendRequestXML "string option"
  | ReceiveResponseXML "string option" qb_response
  | ConnectionError "string option" "string option"
  | GetLastError "string option"
  | CloseConnection "string option"

text \<open>The result that \<^verbatim>\<open>buildResponse\<close> wraps into the envelope.\<close>

datatype reply = Text string | Strings string string | Number jsnum

definition reply_with :: "('a \<Rightarrow> reply) \<Rightarrow> 'a \<times> 'w state \<Rightarrow> reply \<times> 'w state" where
  "reply_with f r = (f (fst r), snd r)"

fun handleSOAPRequest ::
  "config \<Rightarrow> 'w fetch_op \<Rightarrow> 'w mark_op \<Rightarrow> request \<Rightarrow> 'w state \<Rightarrow> reply \<times> 'w state" where
  "handleSOAPRequest cfg fetch mark ServerVersion st = (Text ''1.0.0'', st)"
| "handleSOAPRequest cfg fetch mark (ClientVersion v) st = (Text [], st)"
| "handleSOAPRequest cfg fetch mark (Authenticate new_ticket u p) st =
     reply_with (\<lambda>(a, b). Strings a b) (handleAuthenticate cfg new_ticket u p st)"
| "handleSOAPRequest cfg fetch mark (SendRequestXML t) st =
     reply_with Text (handleSendRequestXML fetch t st)"
| "handleSOAPRequest cfg fetch mark (ReceiveResponseXML t r) st =
     reply_with Number (handleReceiveResponseXML mark t r st)"
| "handleSOAPRequest cfg fetch mark (ConnectionError t m) st =
     reply_with Text (handleConnectionError t m st)"
| "handleSOAPRequest cfg fetch mark (GetLastError t) st =
     reply_with Text (handleGetLastError t st)"
| "handleSOAPRequest cfg fetch mark (CloseConnection t) st =
     reply_with Text (handleCloseConnection t st)"

text \<open>The state after a sequence of requests, and the replies on the way.\<close>

fun run ::
  "config \<Rightarrow> 'w fetch_op \<Rightarrow> 'w mark_op \<Rightarrow> request list \<Rightarrow> 'w state \<Rightarrow> 'w state" where
  "run cfg fetch mark [] st = st"
| "run cfg fetch mark (r # rs) st = run cfg fetch mark rs (snd (handleSOAPRequest cfg fetch mark r st))"

fun replies ::
  "config \<Rightarrow> 'w fetch_op \<Rightarrow> 'w mark_op \<Rightarrow> request list \<Rightarrow> 'w state \<Rightarrow> reply list" where
  "replies cfg fetch mark [] st = []"
| "replies cfg fetch mark (r # rs) st =
     (let (out, st') = handleSOAPRequest cfg fetch mark r st
      in out # replies cfg fetch mark rs st')"

text \<open>The process starts with an empty session table.\<close>

definition init :: "'w \<Rightarrow> 'w state" where
  "init w = \<lparr>sessions = Map.empty, world = w, trace = []\<rparr>"

subsection \<open>Sample data\<close>

text \<open>The credentials that the program falls back to when the environment sets none.\<close>

definition default_config :: config where
  "default_config = \<lparr>username = ''trippinqb'', password = ''changeme123''\<rparr>"

text \<open>
  A record store that answers the successive fetches from a script, and reports no
  pending entry once the script has run out.
\<close>

definition scripted_fetch :: "(string + entry list) list fetch_op" where
  "scripted_fetch w = (case w of [] \<Rightarrow> (Inr [], []) | r # rs \<Rightarrow> (r, rs))"

definition mark_ok :: "'w mark_op" where
  "mark_ok ids w = (None, w)"

definition sample_entry :: "string \<Rightarrow> entry" where
  "sample_entry i =
     \<lparr>ID = i, EmployeeName = ''Ann Lee'', ClockIn = LocalDate 2026 0 5,
      RequiresTicket = ''TRUE'', CustomerName = ''Acme'', JobName = ''Roof'', Notes = [],
      TotalHours = Num (3 / 2)\<rparr>"

definition sample_session :: "entry list \<Rightarrow> int \<Rightarrow> session" where
  "sample_session es i =
     \<lparr>authenticated = True, pendingEntries = es, currentIndex = i, lastError = Some []\<rparr>"

text \<open>A state with the single session \<open>s\<close> under the ticket \<open>TICKET-1\<close>.\<close>

definition sample_state :: "session \<Rightarrow> (string + entry list) list state" where
  "sample_state s = \<lparr>sessions = [''TICKET-1'' \<mapsto> s], world = [], trace = []\<rparr>"

definition sign_in :: request where
  "sign_in = Authenticate ''TICKET-1'' (Some ''trippinqb'') (Some ''changeme123'')"

definition sample_init :: "(string + entry list) list \<Rightarrow> (string + entry list) list state" where
  "sample_init script = init script"

definition sample_run :: "request list \<Rightarrow> (string + entry list) list \<Rightarrow> (string + entry list) list state" where
  "sample_run rs script = run default_config scripted_fetch mark_ok rs (init script)"

definition sample_replies :: "request list \<Rightarrow> (string + entry list) list \<Rightarrow> reply list" where
  "sample_replies rs script = replies default_config scripted_fetch mark_ok rs (init script)"

text \<open>
  The conversation of the three-record scenario: the agent signs in and, three times, asks
  for a document and reports its outcome; \<open>resp i\<close> is the \<open>i\<close>-th outcome. In
  \<open>one_failure k code msg\<close> the \<open>k\<close>-th outcome is a failure with status code \<open>code\<close> and
  status message \<open>msg\<close>, which may be absent, and the others are successes.
\<close>

definition three_record_session ::
  "string \<Rightarrow> string option \<Rightarrow> string option \<Rightarrow> (nat \<Rightarrow> qb_response) \<Rightarrow> request list" where
  "three_record_session tk u p resp =
     [Authenticate tk u p,
      SendRequestXML (Some tk), ReceiveResponseXML (Some tk) (resp 0),
      SendRequestXML (Some tk), ReceiveResponseXML (Some tk) (resp 1),
      SendRequestXML (Some tk), ReceiveResponseXML (Some tk) (resp 2)]"

definition one_failure :: "nat \<Rightarrow> string option \<Rightarrow> string option \<Rightarrow> nat \<Rightarrow> qb_response" where
  "one_failure k code msg i = (if i = k then AddRs code msg else AddRs (Some ''0'') None)"

definition synced_calls :: "entry list \<Rightarrow> nat \<Rightarrow> store_call list" where
  "synced_calls es k = map (\<lambda>i. MarkSynced [ID (es ! i)]) (filter (\<lambda>i. i \<noteq> k) [0, 1, 2])"

text \<open>The world after the store has marked the entries of the scenario other than the \<open>k\<close>-th.\<close>

definition marked_world :: "'w mark_op \<Rightarrow> entry list \<Rightarrow> nat \<Rightarrow> 'w \<Rightarrow> 'w" where
  "marked_world mark es k w =
     foldl (\<lambda>x i. snd (mark [ID (es ! i)] x)) w (filter (\<lambda>i. i \<noteq> k) [0, 1, 2])"

text \<open>
  A record store whose state is the list of the ids marked so far: an entry is pending
  as long as its id is not marked.
\<close>

definition ledger_fetch :: "entry list \<Rightarrow> string list fetch_op" where
  "ledger_fetch es w = (Inr (filter (\<lambda>e. ID e \<notin> set w) es), w)"

definition ledger_mark :: "string list mark_op" where
  "ledger_mark ids w = (None, w @ ids)"

definition ledger_state :: "session \<Rightarrow> string list state" where
  "ledger_state s = \<lparr>sessions = [''TICKET-1'' \<mapsto> s], world = [], trace = []\<rparr>"

section \<open>The duration as the specification words it\<close>

text \<open>Rounding to the nearest integer, a tie going away from zero.\<close>

definition round_half_away_from_zero :: "rat \<Rightarrow> int" where
  "round_half_away_from_zero x = (if 0 \<le> x then \<lfloor>x + 1 / 2\<rfloor> else \<lceil>x - 1 / 2\<rceil>)"

text \<open>
  A whole number of minutes split into hours and minutes, the minutes left out when
  the number is a multiple of an hour.
\<close>

definition duration_of_minutes :: "int \<Rightarrow> string" where
  "duration_of_minutes tm =
     ''PT'' @ int_text (tm div 60) @ ''H'' @
     (if tm mod 60 = 0 then [] else int_text (tm mod 60) @ ''M'')"


section \<open>The invariants that the properties speak of\<close>

text \<open>The cursor of a session lies within its worklist.\<close>

definition cursor_in_bounds :: "session \<Rightarrow> bool" where
  "cursor_in_bounds s \<longleftrightarrow> 0 \<le> currentIndex s \<and> currentIndex s \<le> int (length (pendingEntries s))"

text \<open>The session of the ticket \<open>tk\<close>, if there is one, has its cursor within its worklist.\<close>

definition bounded_at :: "'w state \<Rightarrow> string \<Rightarrow> bool" where
  "bounded_at st tk = (case sessions st tk of None \<Rightarrow> True | Some s \<Rightarrow> cursor_in_bounds s)"

definition all_nonneg :: "'w state \<Rightarrow> bool" where
  "all_nonneg st \<longleftrightarrow> (\<forall>t s. sessions st t = Some s \<longrightarrow> 0 \<le> currentIndex s)"

definition all_in_bounds :: "'w state \<Rightarrow> bool" where
  "all_in_bounds st \<longleftrightarrow> (\<forall>t s. sessions st t = Some s \<longrightarrow> cursor_in_bounds s)"

text \<open>
  A \<open>receiveResponseXML\<close> answers a request: the session of its ticket, if there is one,
  has an entry at its cursor.
\<close>

fun entry_outstanding :: "request \<Rightarrow> 'w state \<Rightarrow> bool" where
  "entry_outstanding (ReceiveResponseXML t r) st =
     (case sessions st (or_empty t) of
        None \<Rightarrow> True
      | Some s \<Rightarrow> currentIndex s < int (length (pendingEntries s)))"
| "entry_outstanding other st = True"

fun receives_answer_requests ::
  "config \<Rightarrow> 'w fetch_op \<Rightarrow> 'w mark_op \<Rightarrow> request list \<Rightarrow> 'w state \<Rightarrow> bool" where
  "receives_answer_requests cfg fetch mark [] st = True"
| "receives_answer_requests cfg fetch mark (r # rs) st =
     (entry_outstanding r st \<and>
      receives_answer_requests cfg fetch mark rs (snd (handleSOAPRequest cfg fetch mark r st)))"

text \<open>A request that neither closes the session of the ticket \<open>tk\<close> nor issues \<open>tk\<close> anew.\<close>

fun keeps_session :: "string \<Rightarrow> request \<Rightarrow> bool" where
  "keeps_session tk (CloseConnection t) = (or_empty t \<noteq> tk)"
| "keeps_session tk (Authenticate new_ticket u p) = (new_ticket \<noteq> tk)"
| "keeps_session tk other = True"

text \<open>
  The session of \<open>tk\<close> has the worklist \<open>es\<close> and a cursor at or beyond its end.
\<close>

definition drained :: "entry list \<Rightarrow> string \<Rightarrow> 'w state \<Rightarrow> bool" where
  "drained es tk st \<longleftrightarrow>
     (\<exists>s. sessions st tk = Some s \<and> pendingEntries s = es \<and> int (length es) \<le> currentIndex s)"

text \<open>The session of \<open>tk\<close> is one for which \<open>sendRequestXML\<close> calls the store.\<close>

definition fetch_pending :: "'w state \<Rightarrow> string \<Rightarrow> bool" where
  "fetch_pending st tk =
     (case sessions st tk of
        None \<Rightarrow> False
      | Some s \<Rightarrow> authenticated s \<and> pendingEntries s = [] \<and> currentIndex s = 0)"

text \<open>The cursor, the worklist and the last error of the session of \<open>tk\<close>.\<close>

definition cursor_of :: "'w state \<Rightarrow> string \<Rightarrow> int option" where
  "cursor_of st tk = map_option currentIndex (sessions st tk)"

definition worklist_of :: "'w state \<Rightarrow> string \<Rightarrow> entry list option" where
  "worklist_of st tk = map_option pendingEntries (sessions st tk)"

definition last_error_of :: "'w state \<Rightarrow> string \<Rightarrow> string option" where
  "last_error_of st tk = Option.bind (sessions st tk) lastError"

section \<open>Properties of the number model\<close>

lemma ilog2_bounds:
  assumes "0 < a"
  shows "2 powi (ilog2 a) \<le> a \<and> a < 2 powi (ilog2 a + 1)"
proof -
  obtain p q where pq: "quotient_of a = (p, q)" by (cases "quotient_of a")
  have q0: "0 < q" using quotient_of_denom_pos[OF pq] .
  have a: "a = of_int p / of_int q" using quotient_of_div[OF pq] .
  have p0: "0 < p" using assms q0 unfolding a by (simp add: zero_less_divide_iff)
  define lp where "lp = floorlog 2 (nat p)"
  define lq where "lq = floorlog 2 (nat q)"
  have bp: "2 ^ (lp - 1) \<le> nat p \<and> nat p < 2 ^ lp"
    unfolding lp_def using floorlog_bounds[of "nat p" 2] p0 by simp
  have bq: "2 ^ (lq - 1) \<le> nat q \<and> nat q < 2 ^ lq"
    unfolding lq_def using floorlog_bounds[of "nat q" 2] q0 by simp
  have lp0: "0 < lp" unfolding lp_def using p0 by (simp add: floorlog_def)
  have lq0: "0 < lq" unfolding lq_def using q0 by (simp add: floorlog_def)
  define k where "k = int lp - int lq"
  have P1: "(2::rat) ^ (lp - 1) \<le> of_int p"
  proof -
    have "(of_nat (2 ^ (lp - 1)) :: rat) \<le> of_nat (nat p)" using bp of_nat_le_iff by blast
    then show ?thesis using p0 by simp
  qed
  have P2: "of_int p < (2::rat) ^ lp"
  proof -
    have "(of_nat (nat p) :: rat) < of_nat (2 ^ lp)" using bp of_nat_less_iff by blast
    then show ?thesis using p0 by simp
  qed
  have Q1: "(2::rat) ^ (lq - 1) \<le> of_int q"
  proof -
    have "(of_nat (2 ^ (lq - 1)) :: rat) \<le> of_nat (nat q)" using bq of_nat_le_iff by blast
    then show ?thesis using q0 by simp
  qed
  have Q2: "of_int q < (2::rat) ^ lq"
  proof -
    have "(of_nat (nat q) :: rat) < of_nat (2 ^ lq)" using bq of_nat_less_iff by blast
    then show ?thesis using q0 by simp
  qed
  have qpos: "(0::rat) < of_int q" using q0 by simp
  have up: "a < 2 powi (k + 1)"
  proof -
    have "a * of_int q = of_int p" unfolding a using qpos by simp
    also have "\<dots> < 2 ^ lp" by (rule P2)
    also have "\<dots> = 2 powi (k + 1) * 2 ^ (lq - 1)"
    proof -
      have "(2::rat) powi (k + 1) * 2 ^ (lq - 1) = 2 powi (k + 1) * 2 powi int (lq - 1)" by simp
      also have "\<dots> = 2 powi (k + 1 + int (lq - 1))" by (simp add: power_int_add)
      also have "k + 1 + int (lq - 1) = int lp" unfolding k_def using lq0 by simp
      finally show ?thesis by simp
    qed
    also have "\<dots> \<le> 2 powi (k + 1) * of_int q"
      by (rule mult_left_mono[OF Q1]) simp
    finally show ?thesis using qpos by simp
  qed
  have low: "2 powi (k - 1) < a"
  proof -
    have "2 powi (k - 1) * of_int q < 2 powi (k - 1) * (2::rat) ^ lq"
      by (rule mult_strict_left_mono[OF Q2]) simp
    also have "\<dots> = 2 ^ (lp - 1)"
    proof -
      have "(2::rat) powi (k - 1) * 2 ^ lq = 2 powi (k - 1) * 2 powi int lq" by simp
      also have "\<dots> = 2 powi (k - 1 + int lq)" by (simp add: power_int_add)
      also have "k - 1 + int lq = int (lp - 1)" unfolding k_def using lp0 by simp
      finally show ?thesis by simp
    qed
    also have "\<dots> \<le> of_int p" by (rule P1)
    also have "\<dots> = a * of_int q" unfolding a using qpos by simp
    finally show ?thesis using qpos by simp
  qed
  have il: "ilog2 a = (if 2 powi k \<le> a then k else k - 1)"
    unfolding ilog2_def pq k_def lp_def lq_def by (simp add: Let_def)
  show ?thesis
  proof (cases "2 powi k \<le> a")
    case True
    then show ?thesis using il up by simp
  next
    case False
    then show ?thesis using il low by simp
  qed
qed

lemma ilog2_unique:
  assumes "0 < a" "2 powi e \<le> a" "a < 2 powi (e + 1)"
  shows "ilog2 a = e"
proof (rule ccontr)
  assume ne: "ilog2 a \<noteq> e"
  have b: "2 powi (ilog2 a) \<le> a" "a < 2 powi (ilog2 a + 1)"
    using ilog2_bounds[OF assms(1)] by auto
  show False
  proof (cases "ilog2 a < e")
    case True
    then have "ilog2 a + 1 \<le> e" by simp
    then have "(2::rat) powi (ilog2 a + 1) \<le> 2 powi e" by (intro power_int_increasing) auto
    then show False using b(2) assms(2) by simp
  next
    case False
    then have "e + 1 \<le> ilog2 a" using ne by simp
    then have "(2::rat) powi (e + 1) \<le> 2 powi (ilog2 a)" by (intro power_int_increasing) auto
    then show False using b(1) assms(3) by simp
  qed
qed

text \<open>How \<open>fl\<close> is computed once the binary exponent of its argument is known.\<close>

lemma fl_eval:
  assumes "0 < q" "2 powi e \<le> q" "q < 2 powi (e + 1)" "- 1022 \<le> e"
  shows "fl q = (let r = of_int (round_ties_even (q / 2 powi (e - 52))) * 2 powi (e - 52)
                 in if 2 ^ 1024 \<le> r then PInf else Num r)"
  using assms ilog2_unique[OF assms(1-3)] by (simp add: fl_def Let_def max_def)

lemma floor_rat_numeral_div:
  "\<lfloor>(numeral a :: rat) / numeral b\<rfloor> = numeral a div numeral b"
  using floor_divide_of_int_eq[of "numeral a" "numeral b", where ?'a = rat] by simp

lemma floor_rat_neg_numeral_div:
  "\<lfloor>- ((numeral a :: rat) / numeral b)\<rfloor> = - numeral a div numeral b"
  using floor_divide_of_int_eq[of "- numeral a" "numeral b", where ?'a = rat] by simp

lemmas fl_simps =
  round_ties_even_def Let_def power_int_minus floor_rat_numeral_div floor_rat_neg_numeral_div

lemma round_ties_even_nonneg: "0 \<le> x \<Longrightarrow> 0 \<le> round_ties_even x"
  by (simp add: round_ties_even_def Let_def)

lemma fl_nonneg:
  assumes "0 \<le> q"
  shows "fl q = PInf \<or> (\<exists>r\<ge>0. fl q = Num r)"
proof (cases "q = 0")
  case True
  then show ?thesis by (simp add: fl_def)
next
  case False
  with assms have q: "0 < q" by simp
  define u :: rat where "u = 2 powi (max (ilog2 q) (- 1022) - 52)"
  define r :: rat where "r = of_int (round_ties_even (q / u)) * u"
  have u: "0 < u" unfolding u_def by simp
  have "0 \<le> round_ties_even (q / u)"
    by (rule round_ties_even_nonneg) (use u q in simp)
  then have r: "0 \<le> r" unfolding r_def using u by simp
  have "fl q = (if 2 ^ 1024 \<le> r then PInf else Num r)"
    using q by (simp add: fl_def Let_def u_def r_def)
  then show ?thesis using r by auto
qed

lemma js_floor_nonneg: "0 \<le> x \<Longrightarrow> js_floor (Num x) \<noteq> Num (- 1)"
proof
  assume x: "0 \<le> x" and "js_floor (Num x) = Num (- 1)"
  then have "(of_int \<lfloor>x\<rfloor> :: rat) = of_int (- 1)" by simp
  then have "\<lfloor>x\<rfloor> = - 1" by (simp only: of_int_eq_iff)
  moreover have "0 \<le> \<lfloor>x\<rfloor>" using x by simp
  ultimately show False by simp
qed

lemma progress_not_minus_one:
  assumes "0 \<le> i"
  shows "progress i n \<noteq> Num (- 1)"
proof (cases "n = 0")
  case True
  then show ?thesis using assms by (simp add: progress_def inf_sign_def)
next
  case False
  then have "0 \<le> rat_of_int i / rat_of_nat n" using assms by simp
  from fl_nonneg[OF this] show ?thesis
  proof
    assume "fl (rat_of_int i / rat_of_nat n) = PInf"
    then show ?thesis using False by (simp add: progress_def inf_sign_def)
  next
    assume "\<exists>r\<ge>0. fl (rat_of_int i / rat_of_nat n) = Num r"
    then obtain r where r: "0 \<le> r" "fl (rat_of_int i / rat_of_nat n) = Num r" by blast
    then have "0 \<le> r * 100" by simp
    from fl_nonneg[OF this] show ?thesis
    proof
      assume "fl (r * 100) = PInf"
      then show ?thesis using False r by (simp add: progress_def)
    next
      assume "\<exists>x\<ge>0. fl (r * 100) = Num x"
      then obtain x where x: "0 \<le> x" "fl (r * 100) = Num x" by blast
      have "progress i n = js_floor (Num x)" using False r x by (simp add: progress_def)
      then show ?thesis using js_floor_nonneg[OF x(1)] by simp
    qed
  qed
qed

lemma round_ties_even_ge: "of_int n \<le> x \<Longrightarrow> n \<le> round_ties_even x"
proof -
  assume "of_int n \<le> x"
  then have "n \<le> \<lfloor>x\<rfloor>" by (simp add: le_floor_iff)
  then show ?thesis by (auto simp: round_ties_even_def Let_def)
qed

lemma round_ties_even_le: "x \<le> of_int n \<Longrightarrow> round_ties_even x \<le> n"
proof -
  assume a: "x \<le> of_int n"
  show ?thesis
  proof (cases "x = of_int n")
    case True
    then show ?thesis by (simp add: round_ties_even_def Let_def)
  next
    case False
    with a have "x < of_int n" by simp
    then have "\<lfloor>x\<rfloor> < n" by (simp add: floor_less_iff)
    then show ?thesis by (auto simp: round_ties_even_def Let_def)
  qed
qed

lemma round_ties_even_near: "rat_of_int (round_ties_even x) \<le> x + 1 / 2"
proof -
  have f: "rat_of_int \<lfloor>x\<rfloor> \<le> x" by (rule of_int_floor_le)
  show ?thesis
  proof (cases "x - rat_of_int \<lfloor>x\<rfloor> < 1 / 2")
    case True
    then have "round_ties_even x = \<lfloor>x\<rfloor>" by (simp add: round_ties_even_def Let_def)
    moreover have "rat_of_int \<lfloor>x\<rfloor> \<le> x + 1 / 2" using f by linarith
    ultimately show ?thesis by (simp only:)
  next
    case False
    then have "rat_of_int (\<lfloor>x\<rfloor> + 1) \<le> x + 1 / 2" by simp
    moreover have "round_ties_even x \<le> \<lfloor>x\<rfloor> + 1" by (simp add: round_ties_even_def Let_def)
    ultimately show ?thesis
      by (meson of_int_le_iff order_trans)
  qed
qed

lemma powi_le_D: "(2::rat) powi m \<le> 2 powi n \<Longrightarrow> m \<le> n"
  using power_int_strict_increasing[of n m "2::rat"] by (cases "m \<le> n") auto

lemma powi_less_D: "(2::rat) powi m < 2 powi n \<Longrightarrow> m < n"
  using power_int_increasing[of n m "2::rat"] by (cases "m < n") auto

lemma fl_pos:
  assumes "0 < q"
  shows "fl q = (let u = 2 powi (max (ilog2 q) (- 1022) - 52);
                     r = of_int (round_ties_even (q / u)) * u
                 in if 2 ^ 1024 \<le> r then PInf else Num r)"
  using assms by (simp add: fl_def Let_def)

lemma powi_int: "0 \<le> n \<Longrightarrow> (2::rat) powi n = of_int (2 ^ nat n)"
  by (simp add: power_int_def)

lemma fl_le_pow2:
  assumes q: "0 < q" and le: "q \<le> 2 powi k" and k: "- 1074 \<le> k" "k < 1024"
  shows "\<exists>x. fl q = Num x \<and> 0 \<le> x \<and> x \<le> 2 powi k"
proof -
  define e where "e = max (ilog2 q) (- 1022)"
  define u :: rat where "u = 2 powi (e - 52)"
  define R where "R = round_ties_even (q / u)"
  have u0: "0 < u" unfolding u_def by simp
  have "2 powi (ilog2 q) \<le> q" using ilog2_bounds[OF q] by simp
  then have "(2::rat) powi (ilog2 q) \<le> 2 powi k" using le by simp
  then have "ilog2 q \<le> k" by (rule powi_le_D)
  then have ek: "0 \<le> k - e + 52" unfolding e_def using k by simp
  have "q / u \<le> 2 powi k / u" using le u0 by (simp add: divide_right_mono)
  also have "2 powi k / u = 2 powi (k - e + 52)"
    unfolding u_def by (simp add: power_int_diff[symmetric] algebra_simps)
  also have "\<dots> = of_int (2 ^ nat (k - e + 52))" using ek by (rule powi_int)
  finally have "R \<le> 2 ^ nat (k - e + 52)" unfolding R_def by (rule round_ties_even_le)
  then have "rat_of_int R \<le> of_int (2 ^ nat (k - e + 52))" by (simp only: of_int_le_iff)
  also have "\<dots> = 2 powi (k - e + 52)" using ek by (rule powi_int[symmetric])
  finally have "of_int R * u \<le> 2 powi (k - e + 52) * u" using u0 by simp
  also have "\<dots> = 2 powi k"
    unfolding u_def by (simp add: power_int_add[symmetric])
  finally have r: "of_int R * u \<le> 2 powi k" .
  have "(2::rat) powi k < 2 powi 1024" using k by (intro power_int_strict_increasing) auto
  then have small: "\<not> 2 ^ 1024 \<le> of_int R * u" using r by simp
  have "0 \<le> R" unfolding R_def using q u0 by (intro round_ties_even_nonneg) simp
  then have r0: "0 \<le> of_int R * u" using u0 by simp
  have "fl q = Num (of_int R * u)"
    using fl_pos[OF q] small unfolding Let_def e_def[symmetric] u_def[symmetric] R_def[symmetric]
    by simp
  then show ?thesis using r r0 by blast
qed

text \<open>A quotient of at most 1, taken to a percentage, stays between 0 and 100.\<close>

lemma fl_le_100:
  assumes q: "0 < q" and le: "q \<le> 100"
  shows "\<exists>x. fl q = Num x \<and> 0 \<le> x \<and> x \<le> 100"
proof (cases "q \<le> 64")
  case True
  then have "q \<le> 2 powi 6" by simp
  from fl_le_pow2[OF q this] obtain x where "fl q = Num x" "0 \<le> x" "x \<le> 2 powi 6" by auto
  then show ?thesis by auto
next
  case False
  then have "2 powi 6 \<le> q" by simp
  moreover have "q < 2 powi (6 + 1)" using le by simp
  ultimately have e: "ilog2 q = 6" using q by (intro ilog2_unique) auto
  define u :: rat where "u = 2 powi (- 46)"
  define R where "R = round_ties_even (q / u)"
  have u0: "0 < u" unfolding u_def by simp
  have uinv: "100 / u = of_int (100 * 2 ^ 46)" unfolding u_def by (simp add: power_int_minus)
  have "q / u \<le> 100 / u" using le u0 by (simp add: divide_right_mono)
  then have "q / u \<le> of_int (100 * 2 ^ 46)" using uinv by simp
  then have "R \<le> 100 * 2 ^ 46" unfolding R_def by (rule round_ties_even_le)
  then have "rat_of_int R \<le> of_int (100 * 2 ^ 46)" by (simp only: of_int_le_iff)
  then have "rat_of_int R * u \<le> of_int (100 * 2 ^ 46) * u"
    using u0 by (intro mult_right_mono) auto
  also have "\<dots> = 100" unfolding u_def by (simp add: power_int_minus)
  finally have r: "rat_of_int R * u \<le> 100" .
  have "0 \<le> R" unfolding R_def using q u0 by (intro round_ties_even_nonneg) simp
  then have r0: "0 \<le> rat_of_int R * u" using u0 by simp
  have small: "\<not> 2 ^ 1024 \<le> rat_of_int R * u" using r by simp
  have "fl q = Num (rat_of_int R * u)"
    using fl_pos[OF q] small unfolding Let_def e R_def u_def by simp
  then show ?thesis using r r0 by blast
qed

lemma percent_in_range:
  assumes "0 < i" "i \<le> int n"
  shows "\<exists>k. js_floor (js_mul (js_div (Num (of_int i)) (Num (of_nat n))) (Num 100))
              = Num (of_int k) \<and> 0 \<le> k \<and> k \<le> 100"
proof -
  have n: "0 < n" using assms by simp
  have q: "0 < rat_of_int i / rat_of_nat n" using assms n by simp
  have "rat_of_int i \<le> rat_of_int (int n)" using assms(2) by (simp only: of_int_le_iff)
  then have "rat_of_int i / rat_of_nat n \<le> 1" using n by simp
  then have "rat_of_int i / rat_of_nat n \<le> 2 powi 0" by simp
  from fl_le_pow2[OF q this] obtain r where
    r: "fl (rat_of_int i / rat_of_nat n) = Num r" "0 \<le> r" "r \<le> 1" by auto
  have d: "js_div (Num (of_int i)) (Num (of_nat n)) = Num r" using n r(1) by simp
  have "\<exists>x. fl (r * 100) = Num x \<and> 0 \<le> x \<and> x \<le> 100"
  proof (cases "r = 0")
    case True
    then show ?thesis by (simp add: fl_def)
  next
    case False
    then have "0 < r * 100" "r * 100 \<le> 100" using r by auto
    then show ?thesis by (rule fl_le_100)
  qed
  then obtain x where x: "fl (r * 100) = Num x" "0 \<le> x" "x \<le> 100" by blast
  have "0 \<le> \<lfloor>x\<rfloor>" using x(2) by simp
  moreover have "\<lfloor>x\<rfloor> \<le> 100" using x(3) by (simp add: floor_le_iff)
  moreover have "js_floor (js_mul (js_div (Num (of_int i)) (Num (of_nat n))) (Num 100))
      = Num (of_int \<lfloor>x\<rfloor>)" unfolding d using x(1) by simp
  ultimately show ?thesis by blast
qed

lemma fl_half: "fl (1 / 2) = Num (1 / 2)"
  using fl_eval[of "1 / 2" "- 1"] by (simp add: fl_simps)

lemma fl_50: "fl 50 = Num 50"
  using fl_eval[of 50 5] by (simp add: fl_simps)

lemma fl_1: "fl 1 = Num 1"
  using fl_eval[of 1 0] by (simp add: fl_simps)

lemma fl_100: "fl 100 = Num 100"
  using fl_eval[of 100 6] by (simp add: fl_simps)

section \<open>Properties of the dispatcher\<close>

lemma put_session_same [simp]:
  "sessions st ticket = Some s \<Longrightarrow> put_session ticket s st = st"
  by (simp add: put_session_def map_upd_triv)

text \<open>
  C7. When the user name and the password of the request are not both the configured ones,
  \<open>authenticate\<close> answers the two strings \<open>""\<close> and \<open>"nvu"\<close> and leaves the whole state, the
  session table included, as it was. After it a \<open>sendRequestXML\<close> with a ticket that is not
  in the table answers the empty string, and so does \<open>getLastError\<close>; both leave the state
  unchanged as well.
\<close>

theorem authenticate_invalid_credentials:
  assumes "\<not> (or_empty u = username cfg \<and> or_empty p = password cfg)"
  shows "handleAuthenticate cfg new_ticket u p st = (([], ''nvu''), st) \<and>
         (sessions st (or_empty t) = None \<longrightarrow>
            handleSendRequestXML fetch t (snd (handleAuthenticate cfg new_ticket u p st)) = ([], st) \<and>
            handleGetLastError t (snd (handleAuthenticate cfg new_ticket u p st)) = ([], st))"
  using assms
  by (auto simp: handleAuthenticate_def handleSendRequestXML_def handleGetLastError_def Let_def)

theorem authenticate_invalid_credentials_witness:
  "\<not> (or_empty (Some ''trippinqb'') = username default_config \<and>
      or_empty (Some ''guess'') = password default_config) \<and>
   sessions (init ([] :: (string + entry list) list)) (or_empty (Some ''TICKET-1'')) = None \<and>
   handleAuthenticate default_config ''TICKET-1'' (Some ''trippinqb'') (Some ''guess'')
     (init ([] :: (string + entry list) list)) = (([], ''nvu''), init []) \<and>
   handleSendRequestXML scripted_fetch (Some ''TICKET-1'')
     (snd (handleAuthenticate default_config ''TICKET-1'' (Some ''trippinqb'') (Some ''guess'')
       (init []))) = ([], init []) \<and>
   handleGetLastError (Some ''TICKET-1'')
     (snd (handleAuthenticate default_config ''TICKET-1'' (Some ''trippinqb'') (Some ''guess'')
       (init ([] :: (string + entry list) list)))) = ([], init [])"
proof -
  have h: "\<not> (or_empty (Some ''trippinqb'') = username default_config \<and>
      or_empty (Some ''guess'') = password default_config)"
    by (simp add: or_empty_def default_config_def)
  have n: "sessions (init ([] :: (string + entry list) list)) (or_empty (Some ''TICKET-1'')) = None"
    by (simp add: init_def)
  note T = authenticate_invalid_credentials
      [OF h, of "''TICKET-1''" "init ([] :: (string + entry list) list)" "Some ''TICKET-1''"
         scripted_fetch]
  note U = T[THEN conjunct2, THEN mp, OF n]
  show ?thesis
    by (intro conjI h n T[THEN conjunct1] U[THEN conjunct1] U[THEN conjunct2])
qed

text \<open>
  C10. For a live session, a response that parses and holds no \<open>TimeTrackingAddRs\<close> element
  makes \<open>receiveResponseXML\<close> add one to the cursor and nothing else: the store is not
  called (the world and the trace are the same) and \<open>lastError\<close> keeps its value. The answer
  is the floor of the double quotient of the new cursor by the length of the worklist,
  times 100. With a cursor that is not negative that answer is never \<open>-1\<close>, and with an
  entry at the cursor it is a whole number from 0 to 100.
\<close>

theorem receive_without_add_response:
  assumes "sessions st (or_empty t) = Some s"
  shows "handleReceiveResponseXML mark t NoAddRs st =
           (js_floor (js_mul (js_div (Num (of_int (currentIndex s + 1)))
                                     (Num (of_nat (length (pendingEntries s))))) (Num 100)),
            st\<lparr>sessions := (sessions st)(or_empty t \<mapsto> s\<lparr>currentIndex := currentIndex s + 1\<rparr>)\<rparr>) \<and>
         (0 \<le> currentIndex s \<longrightarrow>
            fst (handleReceiveResponseXML mark t NoAddRs st) \<noteq> Num (- 1)) \<and>
         (0 \<le> currentIndex s \<and> currentIndex s < int (length (pendingEntries s)) \<longrightarrow>
            (\<exists>k. fst (handleReceiveResponseXML mark t NoAddRs st) = Num (of_int k) \<and>
                 0 \<le> k \<and> k \<le> 100))"
proof -
  have r: "handleReceiveResponseXML mark t NoAddRs st =
           (js_floor (js_mul (js_div (Num (of_int (currentIndex s + 1)))
                                     (Num (of_nat (length (pendingEntries s))))) (Num 100)),
            st\<lparr>sessions := (sessions st)(or_empty t \<mapsto> s\<lparr>currentIndex := currentIndex s + 1\<rparr>)\<rparr>)"
    using assms
    by (simp add: handleReceiveResponseXML_def advance_def put_session_def progress_def Let_def)
  have a: "0 \<le> currentIndex s \<Longrightarrow>
      fst (handleReceiveResponseXML mark t NoAddRs st) \<noteq> Num (- 1)"
    unfolding r using progress_not_minus_one[of "currentIndex s + 1" "length (pendingEntries s)"]
    by (simp add: progress_def)
  have b: "0 \<le> currentIndex s \<and> currentIndex s < int (length (pendingEntries s)) \<Longrightarrow>
      \<exists>k. fst (handleReceiveResponseXML mark t NoAddRs st) = Num (of_int k) \<and> 0 \<le> k \<and> k \<le> 100"
    unfolding r fst_conv
    by (rule percent_in_range) auto
  show ?thesis using r a b by blast
qed

theorem receive_without_add_response_witness:
  "sessions (sample_state (sample_session [sample_entry ''E1'', sample_entry ''E2''] 0))
     (or_empty (Some ''TICKET-1''))
     = Some (sample_session [sample_entry ''E1'', sample_entry ''E2''] 0) \<and>
   0 \<le> currentIndex (sample_session [sample_entry ''E1'', sample_entry ''E2''] 0) \<and>
   currentIndex (sample_session [sample_entry ''E1'', sample_entry ''E2''] 0)
     < int (length (pendingEntries (sample_session [sample_entry ''E1'', sample_entry ''E2''] 0))) \<and>
   handleReceiveResponseXML mark_ok (Some ''TICKET-1'') NoAddRs
     (sample_state (sample_session [sample_entry ''E1'', sample_entry ''E2''] 0))
     = (Num 50, sample_state (sample_session [sample_entry ''E1'', sample_entry ''E2''] 1)) \<and>
   fst (handleReceiveResponseXML mark_ok (Some ''TICKET-1'') NoAddRs
     (sample_state (sample_session [sample_entry ''E1'', sample_entry ''E2''] 0))) \<noteq> Num (- 1)"
proof -
  let ?s = "sample_session [sample_entry ''E1'', sample_entry ''E2''] 0"
  have h: "sessions (sample_state ?s) (or_empty (Some ''TICKET-1'')) = Some ?s"
    by (simp add: sample_state_def or_empty_def)
  have c: "0 \<le> currentIndex ?s" by (simp add: sample_session_def)
  have d: "currentIndex ?s < int (length (pendingEntries ?s))" by (simp add: sample_session_def)
  note T = receive_without_add_response [OF h, of mark_ok]
  have v: "handleReceiveResponseXML mark_ok (Some ''TICKET-1'') NoAddRs (sample_state ?s)
     = (Num 50, sample_state (sample_session [sample_entry ''E1'', sample_entry ''E2''] 1))"
    using T[THEN conjunct1]
    by (simp add: sample_state_def sample_session_def or_empty_def fl_half fl_50)
  show ?thesis
    by (intro conjI h c d v T[THEN conjunct2, THEN conjunct1, THEN mp, OF c])
qed

lemmas handler_defs =
  handleAuthenticate_def handleSendRequestXML_def handleReceiveResponseXML_def
  handleConnectionError_def handleGetLastError_def handleCloseConnection_def
  next_request_def advance_def receive_failed_def put_session_def call_store_def
  reply_with_def or_empty_def js_index_def Let_def

lemma step_nonneg:
  assumes "all_nonneg st"
  shows "all_nonneg (snd (handleSOAPRequest cfg fetch mark r st))"
proof (cases r)
  case (SendRequestXML t)
  then show ?thesis using assms unfolding all_nonneg_def
    by (auto simp: handler_defs split: option.splits prod.splits sum.splits if_splits)
next
  case (ReceiveResponseXML t resp)
  then show ?thesis using assms unfolding all_nonneg_def
    by (cases resp)
       (fastforce simp: handler_defs split: option.splits prod.splits sum.splits if_splits)+
qed (use assms in \<open>auto simp: all_nonneg_def handler_defs split: option.splits if_splits\<close>)

lemma step_in_bounds:
  assumes "all_in_bounds st" "entry_outstanding r st"
  shows "all_in_bounds (snd (handleSOAPRequest cfg fetch mark r st))"
proof (cases r)
  case (SendRequestXML t)
  then show ?thesis using assms unfolding all_in_bounds_def cursor_in_bounds_def
    by (auto simp: handler_defs split: option.splits prod.splits sum.splits if_splits)
next
  case (ReceiveResponseXML t resp)
  then show ?thesis using assms unfolding all_in_bounds_def cursor_in_bounds_def
    by (cases resp)
       (fastforce simp: handler_defs split: option.splits prod.splits sum.splits if_splits)+
qed (use assms in \<open>auto simp: all_in_bounds_def cursor_in_bounds_def handler_defs split: option.splits if_splits\<close>)

lemma run_nonneg: "all_nonneg st \<Longrightarrow> all_nonneg (run cfg fetch mark rs st)"
  by (induction rs arbitrary: st) (simp_all add: step_nonneg)

lemma run_in_bounds:
  "all_in_bounds st \<Longrightarrow> receives_answer_requests cfg fetch mark rs st
     \<Longrightarrow> all_in_bounds (run cfg fetch mark rs st)"
  by (induction rs arbitrary: st) (simp_all add: step_in_bounds)


lemmas sample_defs =
  sample_run_def sample_replies_def sign_in_def default_config_def scripted_fetch_def
  mark_ok_def init_def

lemma init_in_bounds: "all_in_bounds (init w) \<and> all_nonneg (init w)"
  by (simp add: all_in_bounds_def all_nonneg_def init_def)

text \<open>
  What the dispatcher does keep. The cursor is never negative, from any state and along
  every sequence of requests. The bound \<open>cursor \<le> length pendingEntries\<close> holds in the
  initial state and along every sequence of requests in which each \<open>receiveResponseXML\<close>
  meets a session with an entry at its cursor.
\<close>

lemma cursor_bounds:
  "(all_nonneg st \<longrightarrow> all_nonneg (run cfg fetch mark rs st)) \<and>
   (all_in_bounds st \<and> receives_answer_requests cfg fetch mark rs st \<longrightarrow>
      all_in_bounds (run cfg fetch mark rs st)) \<and>
   all_in_bounds (init w) \<and> all_nonneg (init w)"
  using run_nonneg[of st cfg fetch mark rs] run_in_bounds[of st cfg fetch mark rs]
    init_in_bounds[of w]
  by blast

lemma cursor_bounds_sample:
  "all_nonneg (sample_init [Inr [sample_entry ''E1'', sample_entry ''E2'']]) \<and>
   all_in_bounds (sample_init [Inr [sample_entry ''E1'', sample_entry ''E2'']]) \<and>
   receives_answer_requests default_config scripted_fetch mark_ok
     [sign_in, SendRequestXML (Some ''TICKET-1''),
      ReceiveResponseXML (Some ''TICKET-1'') (AddRs (Some ''0'') None),
      SendRequestXML (Some ''TICKET-1''),
      ReceiveResponseXML (Some ''TICKET-1'') (AddRs (Some ''3175'') (Some ''Invalid reference''))]
     (sample_init [Inr [sample_entry ''E1'', sample_entry ''E2'']]) \<and>
   all_nonneg (sample_run
     [sign_in, SendRequestXML (Some ''TICKET-1''),
      ReceiveResponseXML (Some ''TICKET-1'') (AddRs (Some ''0'') None),
      SendRequestXML (Some ''TICKET-1''),
      ReceiveResponseXML (Some ''TICKET-1'') (AddRs (Some ''3175'') (Some ''Invalid reference''))]
     [Inr [sample_entry ''E1'', sample_entry ''E2'']]) \<and>
   all_in_bounds (sample_run
     [sign_in, SendRequestXML (Some ''TICKET-1''),
      ReceiveResponseXML (Some ''TICKET-1'') (AddRs (Some ''0'') None),
      SendRequestXML (Some ''TICKET-1''),
      ReceiveResponseXML (Some ''TICKET-1'') (AddRs (Some ''3175'') (Some ''Invalid reference''))]
     [Inr [sample_entry ''E1'', sample_entry ''E2'']])"
  unfolding sample_init_def sample_run_def
proof -
  let ?w = "[Inr [sample_entry ''E1'', sample_entry ''E2'']] :: (string + entry list) list"
  let ?rs = "[sign_in, SendRequestXML (Some ''TICKET-1''),
      ReceiveResponseXML (Some ''TICKET-1'') (AddRs (Some ''0'') None),
      SendRequestXML (Some ''TICKET-1''),
      ReceiveResponseXML (Some ''TICKET-1'') (AddRs (Some ''3175'') (Some ''Invalid reference''))]"
  note T = cursor_bounds [of "init ?w" default_config scripted_fetch mark_ok ?rs ?w]
  have n: "all_nonneg (init ?w)" using T by (elim conjE)
  have b: "all_in_bounds (init ?w)" using T by (elim conjE)
  have g: "receives_answer_requests default_config scripted_fetch mark_ok ?rs (init ?w)"
    by (simp add: handler_defs sample_defs)
  have n': "all_nonneg (run default_config scripted_fetch mark_ok ?rs (init ?w))"
    using T n by (elim conjE) (erule mp)
  have b': "all_in_bounds (run default_config scripted_fetch mark_ok ?rs (init ?w))"
    using T b g by blast
  show "all_nonneg (init ?w) \<and> all_in_bounds (init ?w) \<and>
    receives_answer_requests default_config scripted_fetch mark_ok ?rs (init ?w) \<and>
    all_nonneg (run default_config scripted_fetch mark_ok ?rs (init ?w)) \<and>
    all_in_bounds (run default_config scripted_fetch mark_ok ?rs (init ?w))"
    by (intro conjI n b g n' b')
qed

text \<open>
  C1. The bound \<open>cursor \<le> length pendingEntries\<close> is not kept by \<open>receiveResponseXML\<close>,
  which adds one to the cursor whatever the cursor is. On a session that has just been
  opened, whose worklist is still empty, one call takes the cursor to 1; on a session
  whose one-entry worklist is done, one more call takes the cursor to 2.
\<close>

theorem cursor_overshoots_worklist:
  "cursor_of (sample_run [sign_in, ReceiveResponseXML (Some ''TICKET-1'') NoAddRs] []) ''TICKET-1''
     = Some 1 \<and>
   worklist_of (sample_run [sign_in, ReceiveResponseXML (Some ''TICKET-1'') NoAddRs] []) ''TICKET-1''
     = Some [] \<and>
   \<not> bounded_at (sample_run [sign_in, ReceiveResponseXML (Some ''TICKET-1'') NoAddRs] [])
       ''TICKET-1'' \<and>
   cursor_of (sample_run
     [sign_in, SendRequestXML (Some ''TICKET-1''),
      ReceiveResponseXML (Some ''TICKET-1'') (AddRs (Some ''0'') None),
      ReceiveResponseXML (Some ''TICKET-1'') (AddRs (Some ''3175'') (Some ''Invalid reference''))]
     [Inr [sample_entry ''E1'']]) ''TICKET-1'' = Some 2 \<and>
   worklist_of (sample_run
     [sign_in, SendRequestXML (Some ''TICKET-1''),
      ReceiveResponseXML (Some ''TICKET-1'') (AddRs (Some ''0'') None),
      ReceiveResponseXML (Some ''TICKET-1'') (AddRs (Some ''3175'') (Some ''Invalid reference''))]
     [Inr [sample_entry ''E1'']]) ''TICKET-1'' = Some [sample_entry ''E1'']"
proof -
  let ?st = "sample_run [sign_in, ReceiveResponseXML (Some ''TICKET-1'') NoAddRs] []"
  have s: "sessions ?st ''TICKET-1'' =
    Some \<lparr>authenticated = True, pendingEntries = [], currentIndex = 1, lastError = Some []\<rparr>"
    by (simp add: handler_defs sample_defs)
  have n: "\<not> bounded_at ?st ''TICKET-1''"
    using s by (simp add: bounded_at_def cursor_in_bounds_def)
  have a: "cursor_of ?st ''TICKET-1'' = Some 1 \<and> worklist_of ?st ''TICKET-1'' = Some []"
    using s by (simp add: cursor_of_def worklist_of_def)
  have b: "cursor_of (sample_run
     [sign_in, SendRequestXML (Some ''TICKET-1''),
      ReceiveResponseXML (Some ''TICKET-1'') (AddRs (Some ''0'') None),
      ReceiveResponseXML (Some ''TICKET-1'') (AddRs (Some ''3175'') (Some ''Invalid reference''))]
     [Inr [sample_entry ''E1'']]) ''TICKET-1'' = Some 2 \<and>
   worklist_of (sample_run
     [sign_in, SendRequestXML (Some ''TICKET-1''),
      ReceiveResponseXML (Some ''TICKET-1'') (AddRs (Some ''0'') None),
      ReceiveResponseXML (Some ''TICKET-1'') (AddRs (Some ''3175'') (Some ''Invalid reference''))]
     [Inr [sample_entry ''E1'']]) ''TICKET-1'' = Some [sample_entry ''E1'']"
    by (simp add: handler_defs sample_defs cursor_of_def worklist_of_def)
  show ?thesis using a n b by blast
qed

lemma buildTimeTrackingAddXML_nonempty: "buildTimeTrackingAddXML e \<noteq> []"
  by (simp add: buildTimeTrackingAddXML_def xml_head_def Let_def)


lemma step_drained:
  assumes "drained es tk st" "es \<noteq> []" "keeps_session tk r"
  shows "drained es tk (snd (handleSOAPRequest cfg fetch mark r st))"
proof (cases r)
  case (SendRequestXML t)
  then show ?thesis using assms unfolding drained_def
    by (auto simp: handler_defs split: option.splits prod.splits sum.splits if_splits)
next
  case (ReceiveResponseXML t resp)
  then show ?thesis using assms unfolding drained_def
    by (cases resp)
       (fastforce simp: handler_defs split: option.splits prod.splits sum.splits if_splits)+
qed (use assms in \<open>auto simp: drained_def handler_defs split: option.splits if_splits\<close>)

lemma run_drained:
  "drained es tk st \<Longrightarrow> es \<noteq> [] \<Longrightarrow> list_all (keeps_session tk) rs
     \<Longrightarrow> drained es tk (run cfg fetch mark rs st)"
  by (induction rs arbitrary: st) (simp_all add: step_drained)

lemma drained_send:
  "drained es tk st \<Longrightarrow> es \<noteq> [] \<Longrightarrow> or_empty t = tk
     \<Longrightarrow> fst (handleSendRequestXML fetch t st) = []"
  unfolding drained_def
  by (auto simp: handleSendRequestXML_def next_request_def Let_def)

text \<open>
  C5 (as amended). Once the worklist of a session is not empty and its cursor has reached
  the length of the worklist, \<open>sendRequestXML\<close> with the ticket answers the empty string
  after every sequence of requests that neither closes the session nor issues its ticket
  again.
\<close>

theorem exhausted_worklist_stays_exhausted:
  assumes "sessions st tk = Some s" and "pendingEntries s \<noteq> []"
    and "int (length (pendingEntries s)) \<le> currentIndex s"
    and "list_all (keeps_session tk) rs" and "or_empty t = tk"
  shows "fst (handleSendRequestXML fetch t (run cfg fetch mark rs st)) = []"
proof -
  have "drained (pendingEntries s) tk st" using assms(1,3) by (simp add: drained_def)
  then have "drained (pendingEntries s) tk (run cfg fetch mark rs st)"
    using assms(2,4) by (rule run_drained)
  then show ?thesis using assms(2,5) by (rule drained_send)
qed

text \<open>
  As stated, for every session with \<open>cursor = length pendingEntries\<close>, the property fails
  on a session that has just been opened: its cursor and the length of its worklist are
  both 0, and \<open>sendRequestXML\<close> fetches the entries and answers a document.
\<close>

theorem exhausted_worklist_counterexample:
  "cursor_of (sample_run [sign_in] [Inr [sample_entry ''E1'']]) ''TICKET-1'' = Some 0 \<and>
   worklist_of (sample_run [sign_in] [Inr [sample_entry ''E1'']]) ''TICKET-1'' = Some [] \<and>
   fst (handleSendRequestXML scripted_fetch (Some ''TICKET-1'')
         (sample_run [sign_in] [Inr [sample_entry ''E1'']])) \<noteq> []"
  by (simp add: handler_defs sample_defs cursor_of_def worklist_of_def
      buildTimeTrackingAddXML_nonempty)


lemma send_keeps_cursor:
  "cursor_of (snd (handleSendRequestXML fetch t st)) tk = cursor_of st tk"
  by (auto simp: handler_defs cursor_of_def split: option.splits prod.splits sum.splits)

lemma send_document_not_pending:
  "fst (handleSendRequestXML fetch t st) \<noteq> []
     \<Longrightarrow> \<not> fetch_pending (snd (handleSendRequestXML fetch t st)) (or_empty t)"
  by (auto simp: handler_defs fetch_pending_def split: option.splits prod.splits sum.splits if_splits)

lemma next_request_again:
  assumes "sessions st tk = Some s0" "authenticated s"
    and "pendingEntries s \<noteq> [] \<or> currentIndex s \<noteq> 0"
  shows "handleSendRequestXML fetch2 (Some tk) (snd (next_request tk s st)) = next_request tk s st"
  using assms
  by (auto simp: handleSendRequestXML_def next_request_def put_session_def or_empty_def
      js_index_def Let_def split: option.splits)

lemma send_again:
  assumes "\<not> fetch_pending (snd (handleSendRequestXML fetch t st)) (or_empty t)"
  shows "handleSendRequestXML fetch2 t (snd (handleSendRequestXML fetch t st))
           = handleSendRequestXML fetch t st"
proof (cases "sessions st (or_empty t)")
  case None
  then show ?thesis by (simp add: handleSendRequestXML_def Let_def)
next
  case (Some s)
  have tk: "handleSendRequestXML f t x = handleSendRequestXML f (Some (or_empty t)) x" for f x
    by (simp add: handleSendRequestXML_def or_empty_def)
  show ?thesis
  proof (cases "authenticated s")
    case False
    then show ?thesis using Some by (simp add: handleSendRequestXML_def Let_def)
  next
    case auth: True
    show ?thesis
    proof (cases "length (pendingEntries s) = 0 \<and> currentIndex s = 0")
      case False
      then have first: "handleSendRequestXML fetch t st = next_request (or_empty t) s st"
        using Some auth by (auto simp: handleSendRequestXML_def Let_def)
      from False have "pendingEntries s \<noteq> [] \<or> currentIndex s \<noteq> 0" by simp
      from next_request_again[OF Some auth this, of fetch2] show ?thesis
        unfolding first by (subst tk) assumption
    next
      case True
      obtain res w where f: "fetch (world st) = (res, w)" by (cases "fetch (world st)")
      show ?thesis
      proof (cases res)
        case (Inl msg)
        then have "fetch_pending (snd (handleSendRequestXML fetch t st)) (or_empty t)"
          using Some auth True f
          by (simp add: handleSendRequestXML_def Let_def put_session_def call_store_def
              fetch_pending_def)
        with assms show ?thesis by simp
      next
        case (Inr es)
        then have first: "handleSendRequestXML fetch t st =
            next_request (or_empty t) (s\<lparr>pendingEntries := es\<rparr>) (call_store FetchPending w st)"
          using Some auth True f by (simp add: handleSendRequestXML_def Let_def)
        show ?thesis
        proof (cases "es = []")
          case True
          then have "fetch_pending (snd (handleSendRequestXML fetch t st)) (or_empty t)"
            unfolding first using auth \<open>length (pendingEntries s) = 0 \<and> currentIndex s = 0\<close>
            by (simp add: next_request_def put_session_def call_store_def fetch_pending_def)
          with assms show ?thesis by simp
        next
          case False
          have a: "sessions (call_store FetchPending w st) (or_empty t) = Some s"
            using Some by (simp add: call_store_def)
          have b: "authenticated (s\<lparr>pendingEntries := es\<rparr>)" using auth by simp
          have c: "pendingEntries (s\<lparr>pendingEntries := es\<rparr>) \<noteq> [] \<or>
                   currentIndex (s\<lparr>pendingEntries := es\<rparr>) \<noteq> 0" using False by simp
          from next_request_again[OF a b c, of fetch2] show ?thesis
            unfolding first by (subst tk) assumption
        qed
      qed
    qed
  qed
qed

text \<open>
  C6 (as amended). \<open>sendRequestXML\<close> never changes a cursor. A second \<open>sendRequestXML\<close>
  right after a first one answers the same document and leaves the state as the first left
  it, whatever the store would answer then, unless the first left the session with an empty
  worklist and the cursor 0; in particular whenever the first answered a document.
\<close>

theorem send_request_twice:
  "cursor_of (snd (handleSendRequestXML fetch t st)) tk = cursor_of st tk \<and>
   (\<not> fetch_pending (snd (handleSendRequestXML fetch t st)) (or_empty t) \<longrightarrow>
      handleSendRequestXML fetch2 t (snd (handleSendRequestXML fetch t st))
        = handleSendRequestXML fetch t st) \<and>
   (fst (handleSendRequestXML fetch t st) \<noteq> [] \<longrightarrow>
      \<not> fetch_pending (snd (handleSendRequestXML fetch t st)) (or_empty t))"
  using send_keeps_cursor[of fetch t st tk] send_again[of fetch t st fetch2]
    send_document_not_pending[of fetch t st]
  by blast

text \<open>
  As stated the property fails when the fetch of the first call throws: the first call
  answers the empty string, the second fetches again and answers a document.
\<close>

theorem send_request_twice_counterexample:
  "fst (handleSendRequestXML scripted_fetch (Some ''TICKET-1'')
         (sample_run [sign_in] [Inl ''store unreachable'', Inr [sample_entry ''E1'']])) = [] \<and>
   fst (handleSendRequestXML scripted_fetch (Some ''TICKET-1'')
         (sample_run [sign_in, SendRequestXML (Some ''TICKET-1'')]
            [Inl ''store unreachable'', Inr [sample_entry ''E1'']])) \<noteq> []"
  by (simp add: handler_defs sample_defs buildTimeTrackingAddXML_nonempty)


lemma progress_3_3: "progress 3 3 = Num 100"
  using fl_eval[of 1 0] fl_eval[of 100 6]
  by (simp add: progress_def fl_simps)

lemma progress_3_Suc: "progress 3 (Suc (Suc (Suc 0))) = Num 100"
  using progress_3_3 by (simp add: numeral_3_eq_3)

lemma receive_success:
  assumes "sessions st (or_empty t) = Some s"
    and "0 \<le> currentIndex s" and "currentIndex s < int (length (pendingEntries s))"
  shows "handleReceiveResponseXML mark t (AddRs (Some ''0'') m) st =
     (case mark [ID (pendingEntries s ! nat (currentIndex s))] (world st) of
        (None, w) \<Rightarrow>
          (js_floor (js_mul (js_div (Num (of_int (currentIndex s + 1)))
                                    (Num (of_nat (length (pendingEntries s))))) (Num 100)),
           st\<lparr>sessions := (sessions st)(or_empty t \<mapsto> s\<lparr>currentIndex := currentIndex s + 1\<rparr>),
              world := w,
              trace := trace st @ [MarkSynced [ID (pendingEntries s ! nat (currentIndex s))]]\<rparr>)
      | (Some msg, w) \<Rightarrow>
          (Num (- 1),
           st\<lparr>sessions := (sessions st)(or_empty t \<mapsto>
                 s\<lparr>lastError := Some msg, currentIndex := currentIndex s + 1\<rparr>),
              world := w,
              trace := trace st @ [MarkSynced [ID (pendingEntries s ! nat (currentIndex s))]]\<rparr>))"
  using assms
  by (simp add: handleReceiveResponseXML_def advance_def receive_failed_def put_session_def
      call_store_def js_index_def progress_def Let_def split: prod.splits option.splits)

lemma receive_failure:
  assumes "sessions st (or_empty t) = Some s" and "code \<noteq> Some ''0''"
  shows "handleReceiveResponseXML mark t (AddRs code m) st =
     (js_floor (js_mul (js_div (Num (of_int (currentIndex s + 1)))
                               (Num (of_nat (length (pendingEntries s))))) (Num 100)),
      st\<lparr>sessions := (sessions st)(or_empty t \<mapsto>
            s\<lparr>lastError := m, currentIndex := currentIndex s + 1\<rparr>)\<rparr>)"
  using assms
  by (simp add: handleReceiveResponseXML_def advance_def put_session_def progress_def Let_def)

lemmas scenario_defs = three_record_session_def one_failure_def synced_calls_def
  marked_world_def handler_defs init_def case_prod_beta cursor_of_def

lemma scenario_any:
  assumes "or_empty u = username cfg" "or_empty p = password cfg"
    and "fst (fetch w) = Inr [a, b, c]" and "k < 3" and "code \<noteq> Some ''0''"
  shows "cursor_of (run cfg fetch mark (three_record_session tk u p (one_failure k code m)) (init w)) tk = Some 3 \<and>
    trace (run cfg fetch mark (three_record_session tk u p (one_failure k code m)) (init w))
      = FetchPending # synced_calls [a, b, c] k \<and>
    world (run cfg fetch mark (three_record_session tk u p (one_failure k code m)) (init w))
      = marked_world mark [a, b, c] k (snd (fetch w))"
proof -
  from \<open>k < 3\<close> consider "k = 0" | "k = 1" | "k = 2" by linarith
  then show ?thesis
  proof cases
    case 1
    obtain r1 w2 where m1: "mark [ID b] (snd (fetch w)) = (r1, w2)"
      by (cases "mark [ID b] (snd (fetch w))")
    obtain r2 w3 where m2: "mark [ID c] w2 = (r2, w3)" by (cases "mark [ID c] w2")
    show ?thesis using 1 assms(1-3,5) m1 m2
      by (cases r1; cases r2) (simp_all add: scenario_defs)
  next
    case 2
    obtain r1 w2 where m1: "mark [ID a] (snd (fetch w)) = (r1, w2)"
      by (cases "mark [ID a] (snd (fetch w))")
    obtain r2 w3 where m2: "mark [ID c] w2 = (r2, w3)" by (cases "mark [ID c] w2")
    show ?thesis using 2 assms(1-3,5) m1 m2
      by (cases r1; cases r2) (simp_all add: scenario_defs)
  next
    case 3
    obtain r1 w2 where m1: "mark [ID a] (snd (fetch w)) = (r1, w2)"
      by (cases "mark [ID a] (snd (fetch w))")
    obtain r2 w3 where m2: "mark [ID b] w2 = (r2, w3)" by (cases "mark [ID b] w2")
    show ?thesis using 3 assms(1-3,5) m1 m2
      by (cases r1; cases r2) (simp_all add: scenario_defs)
  qed
qed

lemma scenario_ok:
  assumes "or_empty u = username cfg" "or_empty p = password cfg"
    and "fst (fetch w) = Inr [a, b, c]" and "k < 3" and "code \<noteq> Some ''0''"
    and "\<forall>ids x. fst (mark ids x) = None"
  shows "last (replies cfg fetch mark (three_record_session tk u p (one_failure k code m)) (init w))
      = Number (Num 100) \<and>
    fst (handleGetLastError (Some tk)
      (run cfg fetch mark (three_record_session tk u p (one_failure k code m)) (init w)))
      = or_empty m"
proof -
  from \<open>k < 3\<close> consider "k = 0" | "k = 1" | "k = 2" by linarith
  then show ?thesis
  proof cases
    case 1
    then show ?thesis using assms(1-3,5,6)
      by (simp add: scenario_defs progress_3_Suc)
  next
    case 2
    then show ?thesis using assms(1-3,5,6)
      by (simp add: scenario_defs progress_3_Suc)
  next
    case 3
    then show ?thesis using assms(1-3,5,6)
      by (simp add: scenario_defs progress_3_Suc)
  qed
qed

text \<open>
  C4 (as amended). Take a live session with an entry at its cursor. A \<open>receiveResponseXML\<close>
  whose response carries the status code \<open>0\<close> calls the store exactly once, to mark the
  one-element batch of that entry's id: the world is the one the store returns and the
  trace grows by that call. When the store returns, the answer is the progress and
  \<open>lastError\<close> is kept; when it throws, the answer is \<open>-1\<close> and \<open>lastError\<close> is the message
  thrown. With any other status code the store is not called and \<open>lastError\<close> becomes the
  status message of the response, which may be absent. In every case the cursor grows by
  exactly one. In the three-record scenario, with valid credentials, a store that hands out
  three entries, two successes and one failure in any order, the cursor ends at 3 and the
  store was asked to mark exactly the two successful ids, one per call, whatever the store
  answers. When no marking throws, the last progress reported is 100 and \<open>getLastError\<close>
  answers the status message of the failure, the empty string when the response has none.
\<close>

theorem receive_add_response:
  assumes "sessions st (or_empty t) = Some s"
    and "0 \<le> currentIndex s" and "currentIndex s < int (length (pendingEntries s))"
  shows "handleReceiveResponseXML mark t (AddRs (Some ''0'') m) st =
     (case mark [ID (pendingEntries s ! nat (currentIndex s))] (world st) of
        (None, w') \<Rightarrow>
          (js_floor (js_mul (js_div (Num (of_int (currentIndex s + 1)))
                                    (Num (of_nat (length (pendingEntries s))))) (Num 100)),
           st\<lparr>sessions := (sessions st)(or_empty t \<mapsto> s\<lparr>currentIndex := currentIndex s + 1\<rparr>),
              world := w',
              trace := trace st @ [MarkSynced [ID (pendingEntries s ! nat (currentIndex s))]]\<rparr>)
      | (Some msg, w') \<Rightarrow>
          (Num (- 1),
           st\<lparr>sessions := (sessions st)(or_empty t \<mapsto>
                 s\<lparr>lastError := Some msg, currentIndex := currentIndex s + 1\<rparr>),
              world := w',
              trace := trace st @ [MarkSynced [ID (pendingEntries s ! nat (currentIndex s))]]\<rparr>)) \<and>
   (code \<noteq> Some ''0'' \<longrightarrow>
      handleReceiveResponseXML mark t (AddRs code m) st =
        (js_floor (js_mul (js_div (Num (of_int (currentIndex s + 1)))
                                  (Num (of_nat (length (pendingEntries s))))) (Num 100)),
         st\<lparr>sessions := (sessions st)(or_empty t \<mapsto>
               s\<lparr>lastError := m, currentIndex := currentIndex s + 1\<rparr>)\<rparr>)) \<and>
   (or_empty u = username cfg \<and> or_empty p = password cfg \<and>
    fst (fetch w) = Inr [a, b, c] \<and> k < 3 \<and> code \<noteq> Some ''0'' \<longrightarrow>
      cursor_of (run cfg fetch mark
          (three_record_session tk u p (one_failure k code m)) (init w)) tk = Some 3 \<and>
      trace (run cfg fetch mark
          (three_record_session tk u p (one_failure k code m)) (init w))
        = FetchPending # synced_calls [a, b, c] k \<and>
      world (run cfg fetch mark
          (three_record_session tk u p (one_failure k code m)) (init w))
        = marked_world mark [a, b, c] k (snd (fetch w)) \<and>
      ((\<forall>ids x. fst (mark ids x) = None) \<longrightarrow>
         last (replies cfg fetch mark
             (three_record_session tk u p (one_failure k code m)) (init w))
           = Number (Num 100) \<and>
         fst (handleGetLastError (Some tk) (run cfg fetch mark
             (three_record_session tk u p (one_failure k code m)) (init w))) = or_empty m))"
proof (intro conjI impI)
  show "handleReceiveResponseXML mark t (AddRs (Some ''0'') m) st =
     (case mark [ID (pendingEntries s ! nat (currentIndex s))] (world st) of
        (None, w') \<Rightarrow>
          (js_floor (js_mul (js_div (Num (of_int (currentIndex s + 1)))
                                    (Num (of_nat (length (pendingEntries s))))) (Num 100)),
           st\<lparr>sessions := (sessions st)(or_empty t \<mapsto> s\<lparr>currentIndex := currentIndex s + 1\<rparr>),
              world := w',
              trace := trace st @ [MarkSynced [ID (pendingEntries s ! nat (currentIndex s))]]\<rparr>)
      | (Some msg, w') \<Rightarrow>
          (Num (- 1),
           st\<lparr>sessions := (sessions st)(or_empty t \<mapsto>
                 s\<lparr>lastError := Some msg, currentIndex := currentIndex s + 1\<rparr>),
              world := w',
              trace := trace st @ [MarkSynced [ID (pendingEntries s ! nat (currentIndex s))]]\<rparr>))"
    by (rule receive_success[OF assms])
next
  assume "code \<noteq> Some ''0''"
  then show "handleReceiveResponseXML mark t (AddRs code m) st =
        (js_floor (js_mul (js_div (Num (of_int (currentIndex s + 1)))
                                  (Num (of_nat (length (pendingEntries s))))) (Num 100)),
         st\<lparr>sessions := (sessions st)(or_empty t \<mapsto>
               s\<lparr>lastError := m, currentIndex := currentIndex s + 1\<rparr>)\<rparr>)"
    by (rule receive_failure[OF assms(1)])
next
  assume h: "or_empty u = username cfg \<and> or_empty p = password cfg \<and>
    fst (fetch w) = Inr [a, b, c] \<and> k < 3 \<and> code \<noteq> Some ''0''"
  note A = scenario_any[of u cfg p fetch w a b c k code mark tk m]
  from h A show "cursor_of (run cfg fetch mark
          (three_record_session tk u p (one_failure k code m)) (init w)) tk = Some 3" by blast
  from h A show "trace (run cfg fetch mark
          (three_record_session tk u p (one_failure k code m)) (init w))
        = FetchPending # synced_calls [a, b, c] k" by blast
  from h A show "world (run cfg fetch mark
          (three_record_session tk u p (one_failure k code m)) (init w))
        = marked_world mark [a, b, c] k (snd (fetch w))" by blast
  assume ok: "\<forall>ids x. fst (mark ids x) = None"
  note B = scenario_ok[of u cfg p fetch w a b c k code mark tk m]
  from h ok B show "last (replies cfg fetch mark
             (three_record_session tk u p (one_failure k code m)) (init w))
           = Number (Num 100)" by blast
  from h ok B show "fst (handleGetLastError (Some tk) (run cfg fetch mark
             (three_record_session tk u p (one_failure k code m)) (init w))) = or_empty m" by blast
qed

text \<open>
  As stated, with \<open>lastError\<close> non-empty after the scenario, the property fails when the
  failed response carries a status code and no status message.
\<close>

theorem receive_add_response_counterexample:
  "cursor_of (sample_run (three_record_session ''TICKET-1'' (Some ''trippinqb'')
       (Some ''changeme123'') (one_failure 1 (Some ''3175'') None))
     [Inr [sample_entry ''E1'', sample_entry ''E2'', sample_entry ''E3'']]) ''TICKET-1'' = Some 3 \<and>
   trace (sample_run (three_record_session ''TICKET-1'' (Some ''trippinqb'')
       (Some ''changeme123'') (one_failure 1 (Some ''3175'') None))
     [Inr [sample_entry ''E1'', sample_entry ''E2'', sample_entry ''E3'']])
     = [FetchPending, MarkSynced [''E1''], MarkSynced [''E3'']] \<and>
   fst (handleGetLastError (Some ''TICKET-1'')
     (sample_run (three_record_session ''TICKET-1'' (Some ''trippinqb'')
       (Some ''changeme123'') (one_failure 1 (Some ''3175'') None))
     [Inr [sample_entry ''E1'', sample_entry ''E2'', sample_entry ''E3'']])) = []"
  by (simp add: scenario_defs sample_defs sample_entry_def)

theorem receive_add_response_witness:
  "sessions (ledger_state (sample_session [sample_entry ''E1'', sample_entry ''E2''] 0))
     (or_empty (Some ''TICKET-1''))
     = Some (sample_session [sample_entry ''E1'', sample_entry ''E2''] 0) \<and>
   0 \<le> currentIndex (sample_session [sample_entry ''E1'', sample_entry ''E2''] 0) \<and>
   currentIndex (sample_session [sample_entry ''E1'', sample_entry ''E2''] 0)
     < int (length (pendingEntries (sample_session [sample_entry ''E1'', sample_entry ''E2''] 0))) \<and>
   Some ''3175'' \<noteq> Some ''0'' \<and>
   or_empty (Some ''trippinqb'') = username default_config \<and>
   or_empty (Some ''changeme123'') = password default_config \<and>
   fst (ledger_fetch [sample_entry ''E1'', sample_entry ''E2'', sample_entry ''E3''] [])
     = Inr [sample_entry ''E1'', sample_entry ''E2'', sample_entry ''E3''] \<and>
   (1 :: nat) < 3 \<and>
   (\<forall>ids x. fst (ledger_mark ids x) = None) \<and>
   handleReceiveResponseXML ledger_mark (Some ''TICKET-1'') (AddRs (Some ''0'') None)
     (ledger_state (sample_session [sample_entry ''E1'', sample_entry ''E2''] 0))
     = (Num 50,
        \<lparr>sessions = [''TICKET-1'' \<mapsto> sample_session [sample_entry ''E1'', sample_entry ''E2''] 1],
         world = [''E1''], trace = [MarkSynced [''E1'']]\<rparr>) \<and>
   handleReceiveResponseXML ledger_mark (Some ''TICKET-1'')
     (AddRs (Some ''3175'') (Some ''Invalid reference''))
     (ledger_state (sample_session [sample_entry ''E1'', sample_entry ''E2''] 0))
     = (Num 50,
        \<lparr>sessions = [''TICKET-1'' \<mapsto>
           (sample_session [sample_entry ''E1'', sample_entry ''E2''] 1)
             \<lparr>lastError := Some ''Invalid reference''\<rparr>],
         world = [], trace = []\<rparr>) \<and>
   cursor_of (run default_config
       (ledger_fetch [sample_entry ''E1'', sample_entry ''E2'', sample_entry ''E3'']) ledger_mark
       (three_record_session ''TICKET-1'' (Some ''trippinqb'') (Some ''changeme123'')
          (one_failure 1 (Some ''3175'') (Some ''Invalid reference''))) (init []))
     ''TICKET-1'' = Some 3 \<and>
   trace (run default_config
       (ledger_fetch [sample_entry ''E1'', sample_entry ''E2'', sample_entry ''E3'']) ledger_mark
       (three_record_session ''TICKET-1'' (Some ''trippinqb'') (Some ''changeme123'')
          (one_failure 1 (Some ''3175'') (Some ''Invalid reference''))) (init []))
     = [FetchPending, MarkSynced [''E1''], MarkSynced [''E3'']] \<and>
   world (run default_config
       (ledger_fetch [sample_entry ''E1'', sample_entry ''E2'', sample_entry ''E3'']) ledger_mark
       (three_record_session ''TICKET-1'' (Some ''trippinqb'') (Some ''changeme123'')
          (one_failure 1 (Some ''3175'') (Some ''Invalid reference''))) (init []))
     = [''E1'', ''E3''] \<and>
   last (replies default_config
       (ledger_fetch [sample_entry ''E1'', sample_entry ''E2'', sample_entry ''E3'']) ledger_mark
       (three_record_session ''TICKET-1'' (Some ''trippinqb'') (Some ''changeme123'')
          (one_failure 1 (Some ''3175'') (Some ''Invalid reference''))) (init []))
     = Number (Num 100) \<and>
   fst (handleGetLastError (Some ''TICKET-1'') (run default_config
       (ledger_fetch [sample_entry ''E1'', sample_entry ''E2'', sample_entry ''E3'']) ledger_mark
       (three_record_session ''TICKET-1'' (Some ''trippinqb'') (Some ''changeme123'')
          (one_failure 1 (Some ''3175'') (Some ''Invalid reference''))) (init [])))
     = ''Invalid reference''"
proof -
  let ?s = "sample_session [sample_entry ''E1'', sample_entry ''E2''] 0"
  let ?es = "[sample_entry ''E1'', sample_entry ''E2'', sample_entry ''E3'']"
  let ?rs = "three_record_session ''TICKET-1'' (Some ''trippinqb'') (Some ''changeme123'')
          (one_failure 1 (Some ''3175'') (Some ''Invalid reference''))"
  have h1: "sessions (ledger_state ?s) (or_empty (Some ''TICKET-1'')) = Some ?s"
    by (simp add: ledger_state_def or_empty_def)
  have h2: "0 \<le> currentIndex ?s" by (simp add: sample_session_def)
  have h3: "currentIndex ?s < int (length (pendingEntries ?s))" by (simp add: sample_session_def)
  have h4: "Some ''3175'' \<noteq> Some ''0''" by simp
  have h5: "or_empty (Some ''trippinqb'') = username default_config"
    by (simp add: or_empty_def default_config_def)
  have h6: "or_empty (Some ''changeme123'') = password default_config"
    by (simp add: or_empty_def default_config_def)
  have h7: "fst (ledger_fetch ?es []) = Inr ?es" by (simp add: ledger_fetch_def)
  have h8: "(1 :: nat) < 3" by simp
  have h9: "\<forall>ids x. fst (ledger_mark ids x) = None" by (simp add: ledger_mark_def)
  note S = receive_add_response [OF h1 h2 h3, where mark = ledger_mark and m = None]
  note T = receive_add_response [OF h1 h2 h3, where mark = ledger_mark
      and m = "Some ''Invalid reference''" and code = "Some ''3175''"
      and u = "Some ''trippinqb''" and cfg = default_config and p = "Some ''changeme123''"
      and fetch = "ledger_fetch ?es" and w = "[]"
      and a = "sample_entry ''E1''" and b = "sample_entry ''E2''" and c = "sample_entry ''E3''"
      and k = 1 and tk = "''TICKET-1''"]
  have c1: "handleReceiveResponseXML ledger_mark (Some ''TICKET-1'') (AddRs (Some ''0'') None)
     (ledger_state ?s)
     = (Num 50,
        \<lparr>sessions = [''TICKET-1'' \<mapsto> sample_session [sample_entry ''E1'', sample_entry ''E2''] 1],
         world = [''E1''], trace = [MarkSynced [''E1'']]\<rparr>)"
    using S[THEN conjunct1]
    by (simp add: ledger_state_def ledger_mark_def sample_session_def sample_entry_def
        or_empty_def fl_half fl_50)
  have c2: "handleReceiveResponseXML ledger_mark (Some ''TICKET-1'')
     (AddRs (Some ''3175'') (Some ''Invalid reference'')) (ledger_state ?s)
     = (Num 50,
        \<lparr>sessions = [''TICKET-1'' \<mapsto>
           (sample_session [sample_entry ''E1'', sample_entry ''E2''] 1)
             \<lparr>lastError := Some ''Invalid reference''\<rparr>],
         world = [], trace = []\<rparr>)"
    using T[THEN conjunct2, THEN conjunct1, THEN mp, OF h4]
    by (simp add: ledger_state_def sample_session_def or_empty_def fl_half fl_50)
  note U = T[THEN conjunct2, THEN conjunct2, THEN mp,
        OF conjI[OF h5 conjI[OF h6 conjI[OF h7 conjI[OF h8 h4]]]]]
  have c3: "cursor_of (run default_config (ledger_fetch ?es) ledger_mark ?rs (init []))
     ''TICKET-1'' = Some 3"
    using U by (elim conjE)
  have c4: "trace (run default_config (ledger_fetch ?es) ledger_mark ?rs (init []))
     = [FetchPending, MarkSynced [''E1''], MarkSynced [''E3'']]"
    using U[THEN conjunct2, THEN conjunct1]
    by (simp add: synced_calls_def sample_entry_def)
  have c5: "world (run default_config (ledger_fetch ?es) ledger_mark ?rs (init []))
     = [''E1'', ''E3'']"
    using U[THEN conjunct2, THEN conjunct2, THEN conjunct1]
    by (simp add: marked_world_def ledger_mark_def ledger_fetch_def sample_entry_def)
  note V = U[THEN conjunct2, THEN conjunct2, THEN conjunct2, THEN mp, OF h9]
  have c6: "last (replies default_config (ledger_fetch ?es) ledger_mark ?rs (init []))
     = Number (Num 100)"
    using V by (elim conjE)
  have c7: "fst (handleGetLastError (Some ''TICKET-1'')
      (run default_config (ledger_fetch ?es) ledger_mark ?rs (init []))) = ''Invalid reference''"
    using V[THEN conjunct2] by (simp add: or_empty_def)
  show ?thesis
    by (intro conjI h1 h2 h3 h4 h5 h6 h7 h8 h9 c1 c2 c3 c4 c5 c6 c7)
qed

lemma progress_2_1: "progress 2 (Suc 0) = Num 200"
  using fl_eval[of 2 1] fl_eval[of 200 7]
  by (simp add: progress_def fl_simps)

text \<open>
  C2. The handler takes a session with an empty worklist and the cursor 0 for one that has
  not fetched yet. When the first fetch returns no entry, the next \<open>sendRequestXML\<close> on the
  same ticket therefore calls the store again, and hands out an entry that has arrived in
  between.
\<close>

theorem fetch_repeated_after_empty_fetch:
  "sample_replies [sign_in, SendRequestXML (Some ''TICKET-1''), SendRequestXML (Some ''TICKET-1'')]
     [Inr [], Inr [sample_entry ''E1'']]
     = [Strings ''TICKET-1'' [], Text [], Text (buildTimeTrackingAddXML (sample_entry ''E1''))] \<and>
   trace (sample_run
     [sign_in, SendRequestXML (Some ''TICKET-1''), SendRequestXML (Some ''TICKET-1'')]
     [Inr [], Inr [sample_entry ''E1'']]) = [FetchPending, FetchPending]"
  by (simp add: handler_defs sample_defs)

text \<open>
  C3. The answer of \<open>receiveResponseXML\<close> is not always \<open>-1\<close> or a percentage. On a
  session whose worklist is empty the division is by zero and the answer is
  \<^verbatim>\<open>Infinity\<close>; on a session whose cursor has reached the end of a one-entry worklist,
  one more response takes the answer to 200.
\<close>

theorem receive_progress_out_of_range:
  "sample_replies [sign_in, ReceiveResponseXML (Some ''TICKET-1'') NoAddRs] []
     = [Strings ''TICKET-1'' [], Number PInf] \<and>
   last (sample_replies
     [sign_in, SendRequestXML (Some ''TICKET-1''),
      ReceiveResponseXML (Some ''TICKET-1'') (AddRs (Some ''0'') None),
      ReceiveResponseXML (Some ''TICKET-1'') (AddRs (Some ''3175'') (Some ''Invalid reference''))]
     [Inr [sample_entry ''E1'']]) = Number (Num 200)"
  by (simp add: handler_defs sample_defs progress_def[of 1 0] inf_sign_def progress_2_1)

theorem exhausted_worklist_stays_exhausted_witness:
  "sessions (sample_state (sample_session [sample_entry ''E1''] 1)) ''TICKET-1''
     = Some (sample_session [sample_entry ''E1''] 1) \<and>
   pendingEntries (sample_session [sample_entry ''E1''] 1) \<noteq> [] \<and>
   int (length (pendingEntries (sample_session [sample_entry ''E1''] 1)))
     \<le> currentIndex (sample_session [sample_entry ''E1''] 1) \<and>
   list_all (keeps_session ''TICKET-1'')
     [SendRequestXML (Some ''TICKET-1''), ReceiveResponseXML (Some ''TICKET-1'') NoAddRs,
      GetLastError (Some ''TICKET-1''), CloseConnection (Some ''TICKET-2'')] \<and>
   or_empty (Some ''TICKET-1'') = ''TICKET-1'' \<and>
   fst (handleSendRequestXML scripted_fetch (Some ''TICKET-1'')
     (run default_config scripted_fetch mark_ok
       [SendRequestXML (Some ''TICKET-1''), ReceiveResponseXML (Some ''TICKET-1'') NoAddRs,
        GetLastError (Some ''TICKET-1''), CloseConnection (Some ''TICKET-2'')]
       (sample_state (sample_session [sample_entry ''E1''] 1)))) = []"
proof -
  let ?s = "sample_session [sample_entry ''E1''] 1"
  let ?rs = "[SendRequestXML (Some ''TICKET-1''), ReceiveResponseXML (Some ''TICKET-1'') NoAddRs,
      GetLastError (Some ''TICKET-1''), CloseConnection (Some ''TICKET-2'')]"
  have h1: "sessions (sample_state ?s) ''TICKET-1'' = Some ?s" by (simp add: sample_state_def)
  have h2: "pendingEntries ?s \<noteq> []" by (simp add: sample_session_def)
  have h3: "int (length (pendingEntries ?s)) \<le> currentIndex ?s" by (simp add: sample_session_def)
  have h4: "list_all (keeps_session ''TICKET-1'') ?rs" by (simp add: or_empty_def)
  have h5: "or_empty (Some ''TICKET-1'') = ''TICKET-1''" by (simp add: or_empty_def)
  note T = exhausted_worklist_stays_exhausted
    [OF h1 h2 h3 h4 h5, where fetch = scripted_fetch and cfg = default_config
       and mark = mark_ok]
  show ?thesis by (intro conjI h1 h2 h3 h4 h5 T)
qed

theorem send_request_twice_witness:
  "fst (handleSendRequestXML scripted_fetch (Some ''TICKET-1'')
         (sample_run [sign_in] [Inr [sample_entry ''E1'']])) \<noteq> [] \<and>
   \<not> fetch_pending (snd (handleSendRequestXML scripted_fetch (Some ''TICKET-1'')
         (sample_run [sign_in] [Inr [sample_entry ''E1'']]))) (or_empty (Some ''TICKET-1'')) \<and>
   handleSendRequestXML scripted_fetch (Some ''TICKET-1'')
     (snd (handleSendRequestXML scripted_fetch (Some ''TICKET-1'')
         (sample_run [sign_in] [Inr [sample_entry ''E1'']])))
     = handleSendRequestXML scripted_fetch (Some ''TICKET-1'')
         (sample_run [sign_in] [Inr [sample_entry ''E1'']])"
proof -
  let ?st = "sample_run [sign_in] [Inr [sample_entry ''E1'']]"
  have h: "fst (handleSendRequestXML scripted_fetch (Some ''TICKET-1'') ?st) \<noteq> []"
    by (simp add: handler_defs sample_defs buildTimeTrackingAddXML_nonempty)
  note T = send_request_twice [of scripted_fetch "Some ''TICKET-1''" ?st "''TICKET-1''" scripted_fetch]
  have n: "\<not> fetch_pending (snd (handleSendRequestXML scripted_fetch (Some ''TICKET-1'') ?st))
      (or_empty (Some ''TICKET-1''))"
    using T h by blast
  have e: "handleSendRequestXML scripted_fetch (Some ''TICKET-1'')
     (snd (handleSendRequestXML scripted_fetch (Some ''TICKET-1'') ?st))
     = handleSendRequestXML scripted_fetch (Some ''TICKET-1'') ?st"
    using T n by blast
  show ?thesis by (intro conjI h n e)
qed


section \<open>Properties of the renderer\<close>

subsection \<open>The billing status\<close>
















subsection \<open>The duration\<close>

lemma floor_div60: "\<lfloor>rat_of_int tm / 60\<rfloor> = tm div 60"
  using floor_divide_of_int_eq[of tm 60, where ?'a = rat] by simp

lemma split60: "rat_of_int tm / 60 = of_int (tm div 60) + of_int (tm mod 60) / 60"
proof -
  have "rat_of_int tm = rat_of_int (60 * (tm div 60) + tm mod 60)"
    by (simp only: mult_div_mod_eq)
  also have "\<dots> = 60 * of_int (tm div 60) + of_int (tm mod 60)"
    by (simp only: of_int_add of_int_mult of_int_numeral)
  finally have "rat_of_int tm / 60 = (60 * of_int (tm div 60) + of_int (tm mod 60)) / 60"
    by (simp only:)
  then show ?thesis by (simp add: add_divide_distrib)
qed

lemma floor_fl_div60:
  assumes tm: "0 < tm" "tm \<le> 2 ^ 47"
  shows "\<exists>y. fl (of_int tm / 60) = Num y \<and> \<lfloor>y\<rfloor> = tm div 60"
proof -
  define q :: rat where "q = of_int tm / 60"
  define e where "e = ilog2 q"
  define u :: rat where "u = 2 powi (e - 52)"
  define R where "R = round_ties_even (q / u)"
  define k where "k = tm div 60"
  have q0: "0 < q" unfolding q_def using tm by simp
  have b: "2 powi e \<le> q" "q < 2 powi (e + 1)" unfolding e_def using ilog2_bounds[OF q0] by auto
  have "1 \<le> rat_of_int tm" using tm by simp
  then have "1 / 60 \<le> q" unfolding q_def by simp
  moreover have "(2::rat) powi (- 6) < 1 / 60" by (simp add: power_int_minus)
  ultimately have "(2::rat) powi (- 6) < 2 powi (e + 1)" using b(2) by simp
  then have "- 6 < e + 1" by (rule powi_less_D)
  then have e_lo: "- 6 \<le> e" by simp
  have "rat_of_int tm \<le> of_int (2 ^ 47)" using tm by (simp only: of_int_le_iff)
  then have "q \<le> 2 ^ 47 / 60" unfolding q_def by simp
  also have "\<dots> < 2 powi 42" by simp
  finally have "(2::rat) powi e < 2 powi 42" using b(1) by simp
  then have e_hi: "e < 42" by (rule powi_less_D)
  have u0: "0 < u" unfolding u_def by simp
  have "u \<le> 2 powi (- 11)" unfolding u_def using e_hi by (intro power_int_increasing) auto
  then have u_small: "u \<le> 1 / 2048" by (simp add: power_int_minus)
  have ex: "0 \<le> 52 - e" using e_hi by simp
  have inv_u: "1 / u = of_int (2 ^ nat (52 - e))"
  proof -
    have "1 / u = 2 powi (52 - e)" unfolding u_def
      by (simp add: power_int_minus_divide[symmetric])
    then show ?thesis using powi_int[OF ex] by simp
  qed
  have kq: "rat_of_int k \<le> q" unfolding k_def q_def
    using floor_div60[of tm] of_int_floor_le[of "rat_of_int tm / 60"] by simp
  have "rat_of_int (k * 2 ^ nat (52 - e)) = of_int k * (1 / u)" using inv_u by simp
  also have "\<dots> \<le> q * (1 / u)" using kq u0 by (intro mult_right_mono) auto
  finally have "rat_of_int (k * 2 ^ nat (52 - e)) \<le> q / u" by simp
  then have "k * 2 ^ nat (52 - e) \<le> R" unfolding R_def by (rule round_ties_even_ge)
  then have "rat_of_int (k * 2 ^ nat (52 - e)) \<le> of_int R" by (simp only: of_int_le_iff)
  then have "rat_of_int (k * 2 ^ nat (52 - e)) * u \<le> of_int R * u"
    using u0 by (intro mult_right_mono) auto
  moreover have "rat_of_int (k * 2 ^ nat (52 - e)) * u = of_int k"
  proof -
    have "rat_of_int (k * 2 ^ nat (52 - e)) * u = of_int k * ((1 / u) * u)"
      using inv_u by simp
    then show ?thesis using u0 by simp
  qed
  ultimately have lo: "rat_of_int k \<le> of_int R * u" by (simp only:)
  have "rat_of_int R \<le> q / u + 1 / 2" unfolding R_def by (rule round_ties_even_near)
  then have "rat_of_int R * u \<le> (q / u + 1 / 2) * u" using u0 by (intro mult_right_mono) auto
  also have "\<dots> = q + u / 2" using u0 by (simp add: field_simps)
  finally have up1: "rat_of_int R * u \<le> q + u / 2" .
  have "tm mod 60 \<le> 59" using pos_mod_bound[of 60 tm] by simp
  then have "rat_of_int (tm mod 60) \<le> 59" by simp
  then have "q \<le> of_int k + 59 / 60" unfolding q_def k_def using split60[of tm] by simp
  then have hi: "rat_of_int R * u < of_int k + 1" using up1 u_small by simp
  have "k \<le> tm" unfolding k_def using tm(1) by presburger
  then have "rat_of_int k + 1 \<le> 2 ^ 47 + 1" using tm by simp
  then have small: "\<not> 2 ^ 1024 \<le> rat_of_int R * u" using hi by simp
  have m: "max (ilog2 q) (- 1022) = e" unfolding e_def[symmetric] using e_lo by simp
  have "fl q = Num (of_int R * u)"
    using fl_pos[OF q0] small unfolding Let_def m u_def[symmetric] R_def[symmetric] by simp
  moreover have "\<lfloor>rat_of_int R * u\<rfloor> = k" using lo hi by (intro floor_unique) auto
  ultimately show ?thesis unfolding q_def k_def by blast
qed

lemma formatDuration_of_product:
  assumes p: "js_mul (Num h) (Num 60) = Num x" and x: "0 \<le> x" "x \<le> 2 ^ 46"
  shows "formatDuration (Num h) = duration_of_minutes \<lfloor>x + 1 / 2\<rfloor>"
proof -
  define tm where "tm = \<lfloor>x + 1 / 2\<rfloor>"
  have tm0: "0 \<le> tm" unfolding tm_def using x by simp
  have "tm \<le> 2 ^ 46 + 1" unfolding tm_def
    by (rule floor_le_iff[THEN iffD2]) (use x in simp)
  then have tm1: "tm \<le> 2 ^ 47" by simp
  have t: "trunc (rat_of_int tm / 60) = tm div 60" using tm0 by (simp add: trunc_def floor_div60)
  have rem: "rat_of_int tm - 60 * of_int (trunc (of_int tm / 60)) = of_int (tm mod 60)"
  proof -
    have "rat_of_int tm - 60 * of_int (tm div 60) = rat_of_int (tm - 60 * (tm div 60))" by simp
    also have "tm - 60 * (tm div 60) = tm mod 60" by (simp add: minus_mult_div_eq_mod)
    finally show ?thesis unfolding t .
  qed
  have fl_div: "\<exists>y. fl (of_int tm / 60) = Num y \<and> \<lfloor>y\<rfloor> = tm div 60"
  proof (cases "tm = 0")
    case True
    then show ?thesis by (simp add: fl_def)
  next
    case False
    with tm0 have "0 < tm" by simp
    from floor_fl_div60[OF this tm1] show ?thesis .
  qed
  then obtain y where y: "fl (of_int tm / 60) = Num y" "\<lfloor>y\<rfloor> = tm div 60" by blast
  have r: "js_round (Num x) = Num (of_int tm)" by (simp add: tm_def)
  have d: "js_floor (js_div (Num (of_int tm)) (Num 60)) = Num (of_int (tm div 60))"
    using y by simp
  have m: "js_rem (Num (of_int tm)) (Num 60) = Num (of_int (tm mod 60))"
    using rem by simp
  show ?thesis
    unfolding formatDuration_def Let_def p r d m duration_of_minutes_def tm_def[symmetric]
    by simp
qed

lemma formatDuration_nonneg:
  assumes "0 \<le> h" "h \<le> 2 ^ 40"
  shows "\<exists>x\<ge>0. js_mul (Num h) (Num 60) = Num x \<and>
           formatDuration (Num h) = duration_of_minutes (round_half_away_from_zero x)"
proof (cases "h = 0")
  case True
  have z: "js_mul (Num 0) (Num 60) = Num 0" by (simp add: fl_def)
  have "formatDuration (Num 0) = duration_of_minutes \<lfloor>(0::rat) + 1 / 2\<rfloor>"
    by (rule formatDuration_of_product[OF z]) simp_all
  then have "formatDuration (Num 0) = duration_of_minutes (round_half_away_from_zero 0)"
    by (simp add: round_half_away_from_zero_def)
  then show ?thesis using True z by auto
next
  case False
  then have q: "0 < h * 60" using assms by simp
  have "h * 60 \<le> 2 ^ 40 * 60" using assms by simp
  also have "\<dots> \<le> (2::rat) powi 46" by simp
  finally have "h * 60 \<le> 2 powi 46" .
  from fl_le_pow2[OF q this] obtain x where x: "fl (h * 60) = Num x" "0 \<le> x" "x \<le> 2 powi 46"
    by auto
  then have p: "js_mul (Num h) (Num 60) = Num x" by simp
  have "x \<le> 2 ^ 46" using x(3) by simp
  from formatDuration_of_product[OF p x(2) this]
  have "formatDuration (Num h) = duration_of_minutes (round_half_away_from_zero x)"
    using x(2) by (simp add: round_half_away_from_zero_def)
  then show ?thesis using p x(2) by blast
qed

lemma fl_eval_neg:
  assumes "0 < q" "2 powi e \<le> q" "q < 2 powi (e + 1)" "- 1022 \<le> e"
  shows "fl (- q) = (let r = of_int (round_ties_even (q / 2 powi (e - 52))) * 2 powi (e - 52)
                     in if 2 ^ 1024 \<le> r then NInf else Num (- r))"
  using assms ilog2_unique[OF assms(1-3)] by (simp add: fl_def Let_def max_def)

lemma digits_of_digit: "n < 10 \<Longrightarrow> digits_of n = [digit_char n]"
  by (subst digits_of.simps) simp

lemma digits_of_step:
  "10 \<le> n \<Longrightarrow> digits_of n = digits_of (n div 10) @ [digit_char (n mod 10)]"
  by (subst digits_of.simps) simp

lemmas text_simps = duration_of_minutes_def int_text_def digits_of_digit digits_of_step
  digit_char_def floor_rat_numeral_div floor_rat_neg_numeral_div

lemma product_90: "js_mul (Num (3 / 2)) (Num 60) = Num 90"
  using fl_eval[of 90 6] by (simp add: fl_simps)

lemma product_120: "js_mul (Num 2) (Num 60) = Num 120"
  using fl_eval[of 120 6] by (simp add: fl_simps)

lemma twelfth: "fl (1 / 12) = Num (6004799503160661 / 72057594037927936)"
  using fl_eval[of "1 / 12" "- 4"] by (simp add: fl_simps)

lemma product_5: "js_mul (Num (6004799503160661 / 72057594037927936)) (Num 60) = Num 5"
  using fl_eval[of "6004799503160661 / 72057594037927936 * 60" 2] by (simp add: fl_simps)

lemma duration_examples:
  "formatDuration (Num (3 / 2)) = ''PT1H30M''"
  "formatDuration (Num 2) = ''PT2H''"
  "formatDuration (fl (1 / 12)) = ''PT0H5M''"
proof -
  show "formatDuration (Num (3 / 2)) = ''PT1H30M''"
    using formatDuration_of_product[OF product_90] by (simp add: text_simps)
  show "formatDuration (Num 2) = ''PT2H''"
    using formatDuration_of_product[OF product_120] by (simp add: text_simps)
  show "formatDuration (fl (1 / 12)) = ''PT0H5M''"
    unfolding twelfth using formatDuration_of_product[OF product_5] by (simp add: text_simps)
qed

lemma fl_neg_15_2: "fl (- (15 / 2)) = Num (- (15 / 2))"
  using fl_eval_neg[of "15 / 2" 2] by (simp add: fl_simps)

lemma fl_neg_7_60: "fl (- (7 / 60)) = Num (- (4203359652212463 / 36028797018963968))"
  using fl_eval_neg[of "7 / 60" "- 4"] by (simp add: fl_simps)

lemma floor_minus_one: "\<lfloor>- 1 :: rat\<rfloor> = - 1"
  using floor_of_int[of "- 1", where ?'a = rat] by simp

text \<open>
  As stated the rounding rule fails on a negative tie: for \<open>-0.125\<close> hours the product is
  \<open>-7.5\<close>, which \<^verbatim>\<open>Math.round\<close> takes to \<open>-7\<close> and rounding half away from zero
  to \<open>-8\<close>.
\<close>

theorem duration_rounding_counterexample:
  "js_round (js_mul (Num (- 1 / 8)) (Num 60)) = Num (- 7) \<and>
   round_half_away_from_zero (- 15 / 2) = - 8 \<and>
   formatDuration (Num (- 1 / 8)) = ''PT-1H-7M''"
  by (simp add: fl_neg_15_2 fl_neg_7_60 formatDuration_def round_half_away_from_zero_def
      trunc_def text_simps ceiling_def floor_minus_one Let_def)

text \<open>
  C8 (as amended). \<open>formatDuration\<close> rounds the double product \<open>hours * 60\<close> to the nearest
  integer, a tie going towards \<open>+\<infinity>\<close>. For hours that are not negative (and below
  \<open>2 ^ 40\<close>) this is rounding half away from zero, and the text is \<open>PT<h>H<m>M\<close> with
  \<open>h\<close> and \<open>m\<close> the quotient and the remainder of the minutes by 60, the minutes component
  left out exactly when the remainder is 0. So 1.5 hours render \<open>PT1H30M\<close>, 2 hours
  \<open>PT2H\<close>, and the double nearest to one twelfth of an hour \<open>PT0H5M\<close>.
\<close>

theorem duration_rendering:
  "(0 \<le> h \<and> h \<le> 2 ^ 40 \<longrightarrow>
      (\<exists>x\<ge>0. js_mul (Num h) (Num 60) = Num x \<and>
         formatDuration (Num h) = duration_of_minutes (round_half_away_from_zero x))) \<and>
   formatDuration (Num (3 / 2)) = ''PT1H30M'' \<and>
   formatDuration (Num 2) = ''PT2H'' \<and>
   formatDuration (fl (1 / 12)) = ''PT0H5M''"
  using formatDuration_nonneg[of h] duration_examples by blast

theorem duration_rendering_witness:
  "(0::rat) \<le> 3 / 2 \<and> (3 / 2 :: rat) \<le> 2 ^ 40 \<and>
   js_mul (Num (3 / 2)) (Num 60) = Num 90 \<and>
   formatDuration (Num (3 / 2)) = duration_of_minutes (round_half_away_from_zero 90)"
proof -
  have h: "(0::rat) \<le> 3 / 2 \<and> (3 / 2 :: rat) \<le> 2 ^ 40" by simp
  from duration_rendering[of "3 / 2", THEN conjunct1, THEN mp, OF h]
  obtain x where x: "js_mul (Num (3 / 2)) (Num 60) = Num x"
    "formatDuration (Num (3 / 2)) = duration_of_minutes (round_half_away_from_zero x)"
    by blast
  from x(1) have "x = 90" unfolding product_90 by simp
  with x h show ?thesis by (simp only: product_90 simp_thms)
qed



end
